theory Spec2Isabelle
  imports Complex_Main
begin

section \<open>Data model of svgpathdata.ts\<close>

text \<open>
  JavaScript numbers are modelled as \<open>real\<close>: the properties below are about which
  value is stored where and about the order of comparisons, not about rounding.
  \<open>Point\<close> and \<open>Rect\<close>, \<open>Bezier\<close> and \<open>Projection\<close>, and the draw commands are
  declared in mathutil.ts, bezierutil.ts and svgcommands.ts, which svgpathdata.ts
  imports.
\<close>

text \<open>Modelled from the spec: a point with its coordinates \<open>x\<close> and \<open>y\<close> (mathutil.ts).\<close>

datatype Point = Point (px: real) (py: real)

text \<open>
  Modelled from the spec: the nine raw numeric arguments of an elliptical arc,
  \<open>(x0, y0, rx, ry, xAxisRotation, largeArcFlag, sweepFlag, x1, y1)\<close>; the class
  EllipticalArcCommand itself (svgcommands.ts) is imported by svgpathdata.ts.
\<close>

datatype ArcArgs = ArcArgs real real real real real real real real real

text \<open>\<open>args[i]\<close> and \<open>args[i] = v\<close> for the indices \<open>0..8\<close> of the array.\<close>

fun arg_nth :: "ArcArgs \<Rightarrow> nat \<Rightarrow> real" where
  "arg_nth (ArcArgs a0 a1 a2 a3 a4 a5 a6 a7 a8) i =
     (if i = 0 then a0 else if i = 1 then a1 else if i = 2 then a2
      else if i = 3 then a3 else if i = 4 then a4 else if i = 5 then a5
      else if i = 6 then a6 else if i = 7 then a7 else a8)"

fun arg_upd :: "ArcArgs \<Rightarrow> nat \<Rightarrow> real \<Rightarrow> ArcArgs" where
  "arg_upd (ArcArgs a0 a1 a2 a3 a4 a5 a6 a7 a8) i v =
     (if i = 0 then ArcArgs v a1 a2 a3 a4 a5 a6 a7 a8
      else if i = 1 then ArcArgs a0 v a2 a3 a4 a5 a6 a7 a8
      else if i = 2 then ArcArgs a0 a1 v a3 a4 a5 a6 a7 a8
      else if i = 3 then ArcArgs a0 a1 a2 v a4 a5 a6 a7 a8
      else if i = 4 then ArcArgs a0 a1 a2 a3 v a5 a6 a7 a8
      else if i = 5 then ArcArgs a0 a1 a2 a3 a4 v a6 a7 a8
      else if i = 6 then ArcArgs a0 a1 a2 a3 a4 a5 v a7 a8
      else if i = 7 then ArcArgs a0 a1 a2 a3 a4 a5 a6 v a8
      else ArcArgs a0 a1 a2 a3 a4 a5 a6 a7 v)"

definition args_length :: nat where
  "args_length = 9"

text \<open>
  Modelled from the spec: the six DrawCommand variants of svgcommands.ts. Each carries
  an ordered list of points, in which an entry may be absent (\<open>None\<close>: \<open>null\<close> or
  \<open>undefined\<close>); an elliptical arc additionally carries its raw arguments. The
  constructors take the points in the order in which svgpathdata.ts passes them.
\<close>

datatype DrawCommand =
    MoveCommand (points: "Point option list")
  | LineCommand (points: "Point option list")
  | QuadraticCurveCommand (points: "Point option list")
  | BezierCurveCommand (points: "Point option list")
  | EllipticalArcCommand (points: "Point option list") (args: ArcArgs)
  | ClosePathCommand (points: "Point option list")

datatype CommandKind = Move | Line | QuadraticCurve | BezierCurve | EllipticalArc | ClosePath

text \<open>\<open>d.constructor\<close>, and \<open>d instanceof C\<close> as \<open>constructor_of d = C\<close>.\<close>

fun constructor_of :: "DrawCommand \<Rightarrow> CommandKind" where
  "constructor_of (MoveCommand _) = Move"
| "constructor_of (LineCommand _) = Line"
| "constructor_of (QuadraticCurveCommand _) = QuadraticCurve"
| "constructor_of (BezierCurveCommand _) = BezierCurve"
| "constructor_of (EllipticalArcCommand _ _) = EllipticalArc"
| "constructor_of (ClosePathCommand _) = ClosePath"

text \<open>The array \<open>d.points\<close> replaced by another one; the variant and the args stay.\<close>

fun set_points :: "DrawCommand \<Rightarrow> Point option list \<Rightarrow> DrawCommand" where
  "set_points (MoveCommand _) ps = MoveCommand ps"
| "set_points (LineCommand _) ps = LineCommand ps"
| "set_points (QuadraticCurveCommand _) ps = QuadraticCurveCommand ps"
| "set_points (BezierCurveCommand _) ps = BezierCurveCommand ps"
| "set_points (EllipticalArcCommand _ a) ps = EllipticalArcCommand ps a"
| "set_points (ClosePathCommand _) ps = ClosePathCommand ps"

text \<open>
  \<open>cmd.points[i]\<close>: an index beyond the end reads \<open>undefined\<close>, which the code treats
  like an absent entry.
\<close>

definition point_at :: "DrawCommand \<Rightarrow> nat \<Rightarrow> Point option" where
  "point_at cmd i = (if i < length (points cmd) then points cmd ! i else None)"

text \<open>
  Draw commands are objects that the wrappers and the sub-path groups share and that
  interpolation mutates in place: the store maps a reference to the object's current
  value, and \<open>next_ref\<close> is the first reference never handed out.
\<close>

type_synonym ref = nat

record Store =
  objs :: "ref \<Rightarrow> DrawCommand"
  next_ref :: ref

definition alloc :: "Store \<Rightarrow> DrawCommand \<Rightarrow> ref \<times> Store" where
  "alloc st c = (next_ref st, st\<lparr>objs := (objs st)(next_ref st := c), next_ref := Suc (next_ref st)\<rparr>)"

text \<open>
  Modelled from the spec: a SubPathCommand (svgcommands.ts), an ordered grouping of draw
  commands, built from the commands and read through \<open>commands\<close>.
\<close>

datatype SubPathCommand = SubPathCommand (commands: "ref list")

section \<open>Sub-path grouping\<close>

text \<open>
  One round of the backward loop of createSubPathCommands: push the command on
  \<open>currentCmdList\<close>; at a Move push that list on \<open>cmdGroups\<close> and start a new one.
\<close>

definition group_step :: "(ref \<Rightarrow> DrawCommand) \<Rightarrow> ref \<Rightarrow> ref list list \<times> ref list \<Rightarrow> ref list list \<times> ref list" where
  "group_step h cmd s =
     (let cmdGroups = fst s; currentCmdList = snd s @ [cmd]
      in if constructor_of (h cmd) = Move then (cmdGroups @ [currentCmdList], [])
         else (cmdGroups, currentCmdList))"

text \<open>
  The loop runs over the indices \<open>length - 1\<close> down to \<open>0\<close>, that is over the reversed
  list; what is left in \<open>currentCmdList\<close> after the loop is not used.
\<close>

definition createSubPathCommands :: "(ref \<Rightarrow> DrawCommand) \<Rightarrow> ref list \<Rightarrow> SubPathCommand list" where
  "createSubPathCommands h drawCommands =
     (if drawCommands = [] then []
      else let cmdGroups = fst (fold (group_step h) (rev drawCommands) ([], []))
           in map (\<lambda>cmds. SubPathCommand (rev cmds)) (rev cmdGroups))"

text \<open>The commands of all groups, in order.\<close>

definition flatten :: "SubPathCommand list \<Rightarrow> ref list" where
  "flatten subs = concat (map commands subs)"

section \<open>Collaborators\<close>

text \<open>
  Modelled from the spec: a Bezier of bezierutil.ts, built from three or four control
  points and read through \<open>start\<close>, \<open>cp1\<close>, \<open>cp2\<close> and \<open>end\<close>.
\<close>

datatype Bezier = Bezier (control_points: "Point list")

definition bez_point :: "Bezier \<Rightarrow> nat \<Rightarrow> Point option" where
  "bez_point bez i =
     (if i < length (control_points bez) then Some (control_points bez ! i) else None)"

definition bez_start :: "Bezier \<Rightarrow> Point option" where
  "bez_start bez = bez_point bez 0"

definition bez_cp1 :: "Bezier \<Rightarrow> Point option" where
  "bez_cp1 bez = bez_point bez 1"

definition bez_cp2 :: "Bezier \<Rightarrow> Point option" where
  "bez_cp2 bez = bez_point bez 2"

definition bez_end :: "Bezier \<Rightarrow> Point option" where
  "bez_end bez = (case control_points bez of [] \<Rightarrow> None | p # ps \<Rightarrow> Some (last (p # ps)))"

text \<open>
  Modelled from the spec: the result of a closest-point query, \<open>{point, t, d}\<close>, and
  the bounding box \<open>{x: {min, max}, y: {min, max}}\<close> that \<open>bbox()\<close> returns.
\<close>

datatype Projection = Projection (proj_point: Point) (proj_t: real) (proj_d: real)

datatype BBox = BBox (x_min: real) (x_max: real) (y_min: real) (y_max: real)

text \<open>
  The functions of the imported modules that svgpathdata.ts calls are parameters of the
  model: MathUtil.distance and MathUtil.lerp, the value of \<open>new Point\<close> without
  arguments, the Bezier kernel (length, bbox, project, split), SvgUtil.arcToBeziers and
  PathParser.parseCommands and commandsToString.
\<close>

record Kernel =
  distance :: "Point \<Rightarrow> Point \<Rightarrow> real"
  lerp :: "real \<Rightarrow> real \<Rightarrow> real \<Rightarrow> real"
  new_Point :: Point
  bez_length :: "Bezier \<Rightarrow> real"
  bez_bbox :: "Bezier \<Rightarrow> BBox"
  bez_project :: "Bezier \<Rightarrow> Point \<Rightarrow> Projection"
  bez_split :: "Bezier \<Rightarrow> real \<Rightarrow> real \<Rightarrow> Bezier"
  arcToBeziers :: "ArcArgs \<Rightarrow> real list"
  parseCommands :: "string \<Rightarrow> DrawCommand list"
  commandsToString :: "DrawCommand list \<Rightarrow> string"

text \<open>
  What the code raises: a TypeError where it dereferences an absent value, the two
  \<open>new Error(message)\<close> of the wrapper, and \<open>NotANumber\<close> where it would go on with
  \<open>undefined\<close> coordinates, which \<open>real\<close> cannot carry.
\<close>

datatype error = TypeError | Error string | NotANumber

section \<open>The wrapper of a draw command\<close>

record DrawCommandWrapper =
  sourceCommand :: ref
  sourceBeziers :: "Bezier list"
  splits :: "real list"
  splitCommands :: "ref list"

definition new_DrawCommandWrapper :: "ref \<Rightarrow> Bezier list \<Rightarrow> DrawCommandWrapper" where
  "new_DrawCommandWrapper cmd bezs =
     \<lparr>sourceCommand = cmd, sourceBeziers = bezs, splits = [], splitCommands = []\<rparr>"

text \<open>
  The reduce of DrawCommandWrapper.project and of SvgPathData.project:
  \<open>prev && prev.d < curr.d ? prev : curr\<close>, started at \<open>null\<close>.
\<close>

definition closer :: "('a \<Rightarrow> real) \<Rightarrow> 'a option \<Rightarrow> 'a \<Rightarrow> 'a option" where
  "closer key prev cur =
     (case prev of
        None \<Rightarrow> Some cur
      | Some p \<Rightarrow> if key p < key cur then Some p else Some cur)"

definition wrapper_project :: "Kernel \<Rightarrow> DrawCommandWrapper \<Rightarrow> Point \<Rightarrow> Projection option" where
  "wrapper_project K cw point =
     foldl (closer proj_d) None (map (\<lambda>bez. bez_project K bez point) (sourceBeziers cw))"

text \<open>\<open>_.sortedIndex(array, value)\<close> on an ascending array: the number of entries below the value.\<close>

definition sortedIndex :: "real list \<Rightarrow> real \<Rightarrow> nat" where
  "sortedIndex xs v = length (takeWhile (\<lambda>s. s < v) xs)"

text \<open>\<open>array.splice(i, 0, v)\<close> and \<open>array.splice(i, 1)\<close>.\<close>

definition splice_insert :: "nat \<Rightarrow> 'a \<Rightarrow> 'a list \<Rightarrow> 'a list" where
  "splice_insert i v xs = take i xs @ [v] @ drop i xs"

definition splice_remove :: "nat \<Rightarrow> 'a list \<Rightarrow> 'a list" where
  "splice_remove i xs = take i xs @ drop (Suc i) xs"

text \<open>bezierToDrawCommand: a new command of the variant of the source command.\<close>

definition bezierToDrawCommand :: "DrawCommand \<Rightarrow> Bezier \<Rightarrow> error + DrawCommand" where
  "bezierToDrawCommand cmd bezier =
     (if constructor_of cmd = Line then
        Inr (LineCommand [bez_start bezier, bez_end bezier])
      else if constructor_of cmd = ClosePath then
        Inr (ClosePathCommand [bez_start bezier, bez_end bezier])
      else if constructor_of cmd = QuadraticCurve then
        Inr (QuadraticCurveCommand [bez_start bezier, bez_cp1 bezier, bez_end bezier])
      else if constructor_of cmd = BezierCurve then
        Inr (BezierCurveCommand [bez_start bezier, bez_cp1 bezier, bez_cp2 bezier, bez_end bezier])
      else Inl (Error ''TODO: implement split for ellpitical arcs''))"

text \<open>
  The loop of rebuildSplitCommands over \<open>[...splits, 1]\<close>: each round cuts the first
  source Bezier between \<open>prevT\<close> and \<open>currT\<close> and pushes the new command, a new object
  of the store.
\<close>

fun split_loop :: "Kernel \<Rightarrow> DrawCommandWrapper \<Rightarrow> real \<Rightarrow> real list \<Rightarrow> Store \<times> ref list \<Rightarrow> error + Store \<times> ref list" where
  "split_loop K cw prevT [] acc = Inr acc"
| "split_loop K cw prevT (currT # ts) (st, cmds) =
     (case sourceBeziers cw of
        [] \<Rightarrow> Inl TypeError
      | bez0 # _ \<Rightarrow>
          (case bezierToDrawCommand (objs st (sourceCommand cw)) (bez_split K bez0 prevT currT) of
             Inl e \<Rightarrow> Inl e
           | Inr c \<Rightarrow> split_loop K cw currT ts (snd (alloc st c), cmds @ [fst (alloc st c)])))"

text \<open>rebuildSplitCommands: no split commands when there are no splits.\<close>

definition rebuildSplitCommands :: "Kernel \<Rightarrow> Store \<Rightarrow> DrawCommandWrapper \<Rightarrow> error + Store \<times> DrawCommandWrapper" where
  "rebuildSplitCommands K st cw =
     (if splits cw = [] then Inr (st, cw\<lparr>splitCommands := []\<rparr>)
      else case split_loop K cw 0 (splits cw @ [1]) (st, []) of
             Inl e \<Rightarrow> Inl e
           | Inr (st', cmds) \<Rightarrow> Inr (st', cw\<lparr>splitCommands := cmds\<rparr>))"

text \<open>
  DrawCommandWrapper.split: the test for segments comes first, then the test for an
  arc; \<open>t\<close> is inserted at its place in the ascending \<open>splits\<close>.
\<close>

definition wrapper_split :: "Kernel \<Rightarrow> Store \<Rightarrow> DrawCommandWrapper \<Rightarrow> real \<Rightarrow> error + Store \<times> DrawCommandWrapper" where
  "wrapper_split K st cw t =
     (if sourceBeziers cw = [] then Inr (st, cw)
      else if constructor_of (objs st (sourceCommand cw)) = EllipticalArc then
        Inl (Error ''TODO: implement split support for elliptical arcs'')
      else rebuildSplitCommands K st
             (cw\<lparr>splits := splice_insert (sortedIndex (splits cw) t) t (splits cw)\<rparr>))"

text \<open>The getter \<open>commands\<close> of a wrapper.\<close>

definition wrapper_commands :: "DrawCommandWrapper \<Rightarrow> ref list" where
  "wrapper_commands cw = (if splitCommands cw \<noteq> [] then splitCommands cw else [sourceCommand cw])"

section \<open>The derivation pass\<close>

text \<open>
  Modelled from the spec: a Rect (mathutil.ts) with its sides \<open>l\<close>, \<open>t\<close>, \<open>r\<close> and \<open>b\<close>.
  The bounds start at \<open>Rect(Infinity, Infinity, -Infinity, -Infinity)\<close>, written
  \<open>None\<close>; the first call of \<open>expandBounds_\<close> makes all four sides finite.
\<close>

datatype Rect = Rect (rect_l: real) (rect_t: real) (rect_r: real) (rect_b: real)

definition expandBounds :: "Rect option \<Rightarrow> real \<Rightarrow> real \<Rightarrow> Rect option" where
  "expandBounds bounds x y =
     (case bounds of
        None \<Rightarrow> Some (Rect x y x y)
      | Some bs \<Rightarrow> Some (Rect (min x (rect_l bs)) (min y (rect_t bs))
                             (max x (rect_r bs)) (max y (rect_b bs))))"

definition expandBoundsToBezier :: "Kernel \<Rightarrow> Rect option \<Rightarrow> Bezier \<Rightarrow> Rect option" where
  "expandBoundsToBezier K bounds bez =
     (let bbox = bez_bbox K bez;
          b1 = expandBounds bounds (x_min bbox) (y_min bbox);
          b2 = expandBounds b1 (x_max bbox) (y_min bbox);
          b3 = expandBounds b2 (x_min bbox) (y_max bbox)
      in expandBounds b3 (x_max bbox) (y_max bbox))"

text \<open>The local variables of initInternalState that the loop over the commands updates.\<close>

record InternalState =
  len :: real
  bounds :: "Rect option"
  firstPoint :: "Point option"
  currentPoint :: Point
  drawCommandWrappers :: "DrawCommandWrapper list"

text \<open>
  The loop over \<open>bezierCoords\<close> in steps of eight. A last group of fewer than eight
  numbers would give a Bezier with \<open>undefined\<close> coordinates: \<open>NotANumber\<close>.
\<close>

fun arc_loop :: "Kernel \<Rightarrow> real list \<Rightarrow> InternalState \<times> Bezier list \<Rightarrow> error + InternalState \<times> Bezier list" where
  "arc_loop K [] acc = Inr acc"
| "arc_loop K (c0 # c1 # c2 # c3 # c4 # c5 # c6 # c7 # rest) (s, arcBeziers) =
     (let bez = Bezier [Point (px (currentPoint s)) (py (currentPoint s)),
                        Point c2 c3, Point c4 c5, Point c6 c7]
      in arc_loop K rest
           (s\<lparr>len := len s + bez_length K bez,
              currentPoint := Point c6 c7,
              bounds := expandBoundsToBezier K (bounds s) bez\<rparr>,
            arcBeziers @ [bez]))"
| "arc_loop K _ acc = Inl NotANumber"

text \<open>
  The body of \<open>commands.forEach\<close>. A Move or Line without \<open>points[1]\<close> makes the code
  read \<open>.x\<close> of \<open>undefined\<close>; a curve without one of its control points is taken to
  fail in the same way inside the Bezier kernel.
\<close>

definition init_step :: "Kernel \<Rightarrow> (ref \<Rightarrow> DrawCommand) \<Rightarrow> ref \<Rightarrow> InternalState \<Rightarrow> error + InternalState" where
  "init_step K h cmd s =
     (case h cmd of
        MoveCommand ps \<Rightarrow>
          (case point_at (h cmd) 1 of
             None \<Rightarrow> Inl TypeError
           | Some nextPoint \<Rightarrow>
               Inr (s\<lparr>firstPoint := (if firstPoint s = None then Some nextPoint else firstPoint s),
                      currentPoint := nextPoint,
                      bounds := expandBounds (bounds s) (px nextPoint) (py nextPoint),
                      drawCommandWrappers := drawCommandWrappers s @ [new_DrawCommandWrapper cmd []]\<rparr>))
      | LineCommand ps \<Rightarrow>
          (case point_at (h cmd) 1 of
             None \<Rightarrow> Inl TypeError
           | Some nextPoint \<Rightarrow>
               Inr (s\<lparr>len := len s + distance K (currentPoint s) nextPoint,
                      drawCommandWrappers := drawCommandWrappers s @
                        [new_DrawCommandWrapper cmd
                           [Bezier [currentPoint s, currentPoint s, nextPoint, nextPoint]]],
                      currentPoint := nextPoint,
                      bounds := expandBounds (bounds s) (px nextPoint) (py nextPoint)\<rparr>))
      | ClosePathCommand ps \<Rightarrow>
          Inr ((case firstPoint s of
                  Some fp \<Rightarrow>
                    s\<lparr>len := len s + distance K fp (currentPoint s),
                      drawCommandWrappers := drawCommandWrappers s @
                        [new_DrawCommandWrapper cmd
                           [Bezier [currentPoint s, currentPoint s, fp, fp]]]\<rparr>
                | None \<Rightarrow> s)\<lparr>firstPoint := None\<rparr>)
      | BezierCurveCommand ps \<Rightarrow>
          (case (point_at (h cmd) 1, point_at (h cmd) 2, point_at (h cmd) 3) of
             (Some p1, Some p2, Some p3) \<Rightarrow>
               (let bez = Bezier [currentPoint s, p1, p2, p3]
                in Inr (s\<lparr>drawCommandWrappers := drawCommandWrappers s @
                             [new_DrawCommandWrapper cmd [bez]],
                           len := len s + bez_length K bez,
                           currentPoint := p3,
                           bounds := expandBoundsToBezier K (bounds s) bez\<rparr>))
           | _ \<Rightarrow> Inl TypeError)
      | QuadraticCurveCommand ps \<Rightarrow>
          (case (point_at (h cmd) 1, point_at (h cmd) 2) of
             (Some p1, Some p2) \<Rightarrow>
               (let bez = Bezier [currentPoint s, p1, p2]
                in Inr (s\<lparr>drawCommandWrappers := drawCommandWrappers s @
                             [new_DrawCommandWrapper cmd [bez]],
                           len := len s + bez_length K bez,
                           currentPoint := p2,
                           bounds := expandBoundsToBezier K (bounds s) bez\<rparr>))
           | _ \<Rightarrow> Inl TypeError)
      | EllipticalArcCommand ps a \<Rightarrow>
          (case a of ArcArgs currentPointX currentPointY rx ry xAxisRotation
                       largeArcFlag sweepFlag tempPoint1X tempPoint1Y \<Rightarrow>
             if currentPointX = tempPoint1X \<and> currentPointY = tempPoint1Y then
               Inr (s\<lparr>drawCommandWrappers := drawCommandWrappers s @
                        [new_DrawCommandWrapper cmd []]\<rparr>)
             else if rx = 0 \<or> ry = 0 then
               (let nextPoint = new_Point K
                in Inr (s\<lparr>len := len s + distance K (Point currentPointX currentPointY)
                                                      (Point tempPoint1X tempPoint1Y),
                           bounds := expandBounds (bounds s) tempPoint1X tempPoint1Y,
                           drawCommandWrappers := drawCommandWrappers s @
                             [new_DrawCommandWrapper cmd
                                [Bezier [currentPoint s, currentPoint s, nextPoint, nextPoint]]],
                           currentPoint := nextPoint\<rparr>))
             else
               (case arc_loop K (arcToBeziers K a) (s, []) of
                  Inl e \<Rightarrow> Inl e
                | Inr (s', arcBeziers) \<Rightarrow>
                    Inr (s'\<lparr>drawCommandWrappers := drawCommandWrappers s' @
                               [new_DrawCommandWrapper cmd arcBeziers],
                            currentPoint := Point tempPoint1X tempPoint1Y\<rparr>))))"

text \<open>A \<open>forEach\<close> whose body may throw: the first error ends the loop.\<close>

fun forEach :: "('a \<Rightarrow> 's \<Rightarrow> error + 's) \<Rightarrow> 'a list \<Rightarrow> 's \<Rightarrow> error + 's" where
  "forEach f [] s = Inr s"
| "forEach f (x # xs) s = (case f x s of Inl e \<Rightarrow> Inl e | Inr s' \<Rightarrow> forEach f xs s')"

definition init_state :: InternalState where
  "init_state = \<lparr>len = 0, bounds = None, firstPoint = None, currentPoint = Point 0 0,
                  drawCommandWrappers = []\<rparr>"

definition initInternalState :: "Kernel \<Rightarrow> (ref \<Rightarrow> DrawCommand) \<Rightarrow> ref list \<Rightarrow> error + InternalState" where
  "initInternalState K h cmds = forEach (init_step K h) cmds init_state"

section \<open>SvgPathData\<close>

text \<open>
  The private fields \<open>commands_\<close>, \<open>path_\<close>, ... of the class are written
  \<open>this_commands\<close>, \<open>this_path\<close>, ...
\<close>

record SvgPathData =
  this_originalDrawCommands :: "ref list"
  this_drawCommandWrappers :: "DrawCommandWrapper list"
  this_commands :: "SubPathCommand list"
  this_path :: string
  this_length :: real
  this_bounds :: "Rect option"

text \<open>The flattened command view: the \<open>commands\<close> of all wrappers, in order.\<close>

definition drawCommands :: "SvgPathData \<Rightarrow> ref list" where
  "drawCommands self = concat (map wrapper_commands (this_drawCommandWrappers self))"

text \<open>
  rebuildInternalState(rebuildPathString): the string is regenerated only on request,
  the groups always.
\<close>

definition rebuildInternalState :: "Kernel \<Rightarrow> (ref \<Rightarrow> DrawCommand) \<Rightarrow> bool \<Rightarrow> SvgPathData \<Rightarrow> SvgPathData" where
  "rebuildInternalState K h rebuildPathString self =
     (let self1 = (if rebuildPathString
                   then self\<lparr>this_path := commandsToString K (map h (drawCommands self))\<rparr>
                   else self)
      in self1\<lparr>this_commands := createSubPathCommands h (drawCommands self)\<rparr>)"

definition toString :: "SvgPathData \<Rightarrow> string" where
  "toString self = this_path self"

text \<open>The parser's commands become objects of the store.\<close>

fun alloc_all :: "Store \<Rightarrow> DrawCommand list \<Rightarrow> ref list \<times> Store" where
  "alloc_all st [] = ([], st)"
| "alloc_all st (c # cs) =
     (fst (alloc st c) # fst (alloc_all (snd (alloc st c)) cs), snd (alloc_all (snd (alloc st c)) cs))"

text \<open>The constructor.\<close>

definition new_SvgPathData :: "Kernel \<Rightarrow> Store \<Rightarrow> string \<Rightarrow> error + Store \<times> SvgPathData" where
  "new_SvgPathData K st path =
     (let cmds = fst (alloc_all st (parseCommands K path));
          st' = snd (alloc_all st (parseCommands K path))
      in case initInternalState K (objs st') cmds of
           Inl e \<Rightarrow> Inl e
         | Inr s \<Rightarrow>
             Inr (st', rebuildInternalState K (objs st') False
                    \<lparr>this_originalDrawCommands = cmds,
                     this_drawCommandWrappers = drawCommandWrappers s,
                     this_commands = [],
                     this_path = path,
                     this_length = len s,
                     this_bounds = bounds s\<rparr>))"

subsection \<open>Morphability and interpolation\<close>

text \<open>
  isMorphableWith: the same number of groups, in each group the same number of commands,
  and at each place commands of the same variant with the same number of points.
\<close>

definition isMorphableWith :: "(ref \<Rightarrow> DrawCommand) \<Rightarrow> SvgPathData \<Rightarrow> SvgPathData \<Rightarrow> bool" where
  "isMorphableWith h self cmd =
     (length (this_commands self) = length (this_commands cmd)
      \<and> list_all (\<lambda>(i, s).
           length (commands s) = length (commands (this_commands cmd ! i))
           \<and> list_all (\<lambda>(j, d).
                constructor_of (h d) = constructor_of (h (commands (this_commands cmd ! i) ! j))
                \<and> length (points (h d)) = length (points (h (commands (this_commands cmd ! i) ! j))))
              (enumerate 0 (commands s)))
         (enumerate 0 (this_commands self)))"

text \<open>\<open>d.args\<close> of a command cast to EllipticalArcCommand: only an arc has them.\<close>

fun args_of :: "DrawCommand \<Rightarrow> ArcArgs option" where
  "args_of (EllipticalArcCommand _ a) = Some a"
| "args_of _ = None"

fun set_args :: "DrawCommand \<Rightarrow> ArcArgs \<Rightarrow> DrawCommand" where
  "set_args (EllipticalArcCommand ps _) a = EllipticalArcCommand ps a"
| "set_args c a = c"

text \<open>
  One round of \<open>d.args.forEach\<close>: \<open>d.args[i]\<close> is assigned from \<open>d1.args[i]\<close> and
  \<open>d2.args[i]\<close>, read from the store as it is in that round.
\<close>

definition arc_arg_step :: "Kernel \<Rightarrow> real \<Rightarrow> ref \<Rightarrow> ref \<Rightarrow> ref \<Rightarrow> nat \<Rightarrow> (ref \<Rightarrow> DrawCommand) \<Rightarrow> error + (ref \<Rightarrow> DrawCommand)" where
  "arc_arg_step K fraction d d1 d2 i h =
     (case (args_of (h d), args_of (h d1), args_of (h d2)) of
        (Some a, Some a1, Some a2) \<Rightarrow>
          Inr (h(d := set_args (h d)
                 (arg_upd a i
                    (if i = 5 \<or> i = 6 then (if fraction = 0 then arg_nth a1 i else arg_nth a2 i)
                     else lerp K (arg_nth a1 i) (arg_nth a2 i) fraction))))
      | _ \<Rightarrow> Inl TypeError)"

text \<open>\<open>array[i] = v\<close>: JavaScript extends the array when the index is beyond its end.\<close>

definition array_set :: "'a option list \<Rightarrow> nat \<Rightarrow> 'a \<Rightarrow> 'a option list" where
  "array_set xs i v =
     (if i < length xs then xs[i := Some v]
      else xs @ replicate (i - length xs) None @ [Some v])"

text \<open>
  One round of the loop over the points of a command that is not an arc. The bound
  \<open>d1.points.length\<close> does not change during the loop: a round writes \<open>d.points[i]\<close>
  for an \<open>i\<close> below it, which extends no array that is \<open>d1.points\<close>.
\<close>

definition point_step :: "Kernel \<Rightarrow> real \<Rightarrow> ref \<Rightarrow> ref \<Rightarrow> ref \<Rightarrow> nat \<Rightarrow> (ref \<Rightarrow> DrawCommand) \<Rightarrow> (ref \<Rightarrow> DrawCommand)" where
  "point_step K fraction d d1 d2 i h =
     (case (point_at (h d1) i, point_at (h d2) i) of
        (Some startPoint, Some endPoint) \<Rightarrow>
          h(d := set_points (h d)
                   (array_set (points (h d)) i
                      (Point (lerp K (px startPoint) (px endPoint) fraction)
                             (lerp K (py startPoint) (py endPoint) fraction))))
      | _ \<Rightarrow> h)"

text \<open>The body of the inner \<open>forEach\<close> of interpolate, for the command \<open>d\<close>.\<close>

definition interpolate_command :: "Kernel \<Rightarrow> real \<Rightarrow> ref \<Rightarrow> ref \<Rightarrow> ref \<Rightarrow> (ref \<Rightarrow> DrawCommand) \<Rightarrow> error + (ref \<Rightarrow> DrawCommand)" where
  "interpolate_command K fraction d d1 d2 h =
     (if constructor_of (h d) = EllipticalArc then
        forEach (arc_arg_step K fraction d d1 d2) [0..<args_length] h
      else Inr (fold (point_step K fraction d d1 d2) [0..<length (points (h d1))] h))"

text \<open>
  The body of the outer \<open>forEach\<close>, for the group \<open>s\<close> at the index \<open>i\<close>: \<open>d1\<close> and
  \<open>d2\<close> are the commands of the start and of the end path at the same indices.
\<close>

definition interpolate_subpath :: "Kernel \<Rightarrow> real \<Rightarrow> SvgPathData \<Rightarrow> SvgPathData \<Rightarrow> nat \<times> SubPathCommand \<Rightarrow> (ref \<Rightarrow> DrawCommand) \<Rightarrow> error + (ref \<Rightarrow> DrawCommand)" where
  "interpolate_subpath K fraction start endp is h =
     forEach (\<lambda>jd. interpolate_command K fraction (snd jd)
                      (commands (this_commands start ! fst is) ! fst jd)
                      (commands (this_commands endp ! fst is) ! fst jd))
       (enumerate 0 (commands (snd is))) h"

text \<open>
  interpolate: it returns at once unless this path is morphable with both paths; after
  the loops it calls \<open>rebuildInternalState()\<close>, which leaves the string as it is.
\<close>

definition interpolate :: "Kernel \<Rightarrow> Store \<Rightarrow> SvgPathData \<Rightarrow> SvgPathData \<Rightarrow> SvgPathData \<Rightarrow> real \<Rightarrow> error + Store \<times> SvgPathData" where
  "interpolate K st self start endp fraction =
     (if \<not> isMorphableWith (objs st) self start \<or> \<not> isMorphableWith (objs st) self endp then
        Inr (st, self)
      else case forEach (interpolate_subpath K fraction start endp)
                  (enumerate 0 (this_commands self)) (objs st) of
             Inl e \<Rightarrow> Inl e
           | Inr h' \<Rightarrow> Inr (st\<lparr>objs := h'\<rparr>, rebuildInternalState K h' False self))"

subsection \<open>Projection, split and delete\<close>

text \<open>
  A ProjectionInfo holds the projection and the closure \<open>split\<close>; the closure is
  written as what it captures, the wrapper \<open>cw\<close> by its index in the wrapper list (the
  parameter of the split is \<open>projection.t\<close>).
\<close>

record ProjectionInfo =
  projection :: Projection
  split_cw :: nat

text \<open>The \<open>map\<close> and the \<open>filter\<close> of SvgPathData.project: one item for each wrapper with a projection.\<close>

definition project_items :: "Kernel \<Rightarrow> SvgPathData \<Rightarrow> Point \<Rightarrow> ProjectionInfo list" where
  "project_items K self point =
     List.map_filter
       (\<lambda>icw. map_option (\<lambda>p. \<lparr>projection = p, split_cw = fst icw\<rparr>)
                 (wrapper_project K (snd icw) point))
       (enumerate 0 (this_drawCommandWrappers self))"

definition project :: "Kernel \<Rightarrow> SvgPathData \<Rightarrow> Point \<Rightarrow> ProjectionInfo option" where
  "project K self point =
     foldl (closer (\<lambda>item. proj_d (projection item))) None (project_items K self point)"

text \<open>
  Calling the closure \<open>split\<close> of a ProjectionInfo: \<open>cw.split(projection.t)\<close>, then
  \<open>rebuildInternalState(true)\<close>. An index outside the wrapper list stands for no
  closure of this path.
\<close>

definition call_split :: "Kernel \<Rightarrow> ProjectionInfo \<Rightarrow> Store \<times> SvgPathData \<Rightarrow> error + Store \<times> SvgPathData" where
  "call_split K info ss =
     (let st = fst ss; self = snd ss; ws = this_drawCommandWrappers self; i = split_cw info
      in if i < length ws then
           (case wrapper_split K st (ws ! i) (proj_t (projection info)) of
              Inl e \<Rightarrow> Inl e
            | Inr (st', cw') \<Rightarrow>
                Inr (st', rebuildInternalState K (objs st') True
                            (self\<lparr>this_drawCommandWrappers := ws[i := cw']\<rparr>)))
         else Inl TypeError)"

text \<open>
  Calling \<open>onDeleteCommandClick\<close> of the split command \<open>i\<close> of the wrapper \<open>w\<close>: the
  getter \<open>commands\<close> sets it on every split command but the last;
  \<open>splits.splice(i, 1)\<close>, \<open>rebuildSplitCommands()\<close>, then
  \<open>svgPathData.rebuildInternalState()\<close>. A command without the closure: TypeError.
\<close>

definition onDeleteCommandClick :: "Kernel \<Rightarrow> nat \<Rightarrow> nat \<Rightarrow> Store \<times> SvgPathData \<Rightarrow> error + Store \<times> SvgPathData" where
  "onDeleteCommandClick K w i ss =
     (let st = fst ss; self = snd ss; ws = this_drawCommandWrappers self
      in if w < length ws \<and> Suc i < length (splitCommands (ws ! w)) then
           (case rebuildSplitCommands K st ((ws ! w)\<lparr>splits := splice_remove i (splits (ws ! w))\<rparr>) of
              Inl e \<Rightarrow> Inl e
            | Inr (st', cw') \<Rightarrow>
                Inr (st', rebuildInternalState K (objs st') False
                            (self\<lparr>this_drawCommandWrappers := ws[w := cw']\<rparr>)))
         else Inl TypeError)"

section \<open>A kernel for examples\<close>

text \<open>
  The closest point of the straight segment from \<open>a\<close> to \<open>b\<close> to the point \<open>q\<close>.
\<close>

definition segment_project :: "Point \<Rightarrow> Point \<Rightarrow> Point \<Rightarrow> Projection" where
  "segment_project a b q =
     (let dx = px b - px a; dy = py b - py a; n = dx * dx + dy * dy;
          t = (if n = 0 then 0
               else max 0 (min 1 (((px q - px a) * dx + (py q - py a) * dy) / n)));
          p = Point (px a + t * dx) (py a + t * dy)
      in Projection p t (sqrt ((px q - px p)\<^sup>2 + (py q - py p)\<^sup>2)))"

definition segment_point :: "Point \<Rightarrow> Point \<Rightarrow> real \<Rightarrow> Point" where
  "segment_point a b t = Point (px a + t * (px b - px a)) (py a + t * (py b - py a))"

fun command_letter :: "DrawCommand \<Rightarrow> string" where
  "command_letter (MoveCommand _) = ''M''"
| "command_letter (LineCommand _) = ''L''"
| "command_letter (QuadraticCurveCommand _) = ''Q''"
| "command_letter (BezierCurveCommand _) = ''C''"
| "command_letter (EllipticalArcCommand _ _) = ''A''"
| "command_letter (ClosePathCommand _) = ''Z''"

text \<open>
  A kernel that treats every Bezier as the straight segment between its first and its
  last control point, which is what the Beziers of Line and ClosePath commands are. Its
  parser returns the given commands and its strings hold the command letters only.
\<close>

definition line_kernel :: "DrawCommand list \<Rightarrow> Kernel" where
  "line_kernel parsed =
     \<lparr>distance = (\<lambda>p q. sqrt ((px p - px q)\<^sup>2 + (py p - py q)\<^sup>2)),
      lerp = (\<lambda>a b f. a + (b - a) * f),
      new_Point = Point 0 0,
      bez_length = (\<lambda>bez. case control_points bez of
                      [] \<Rightarrow> 0
                    | p # ps \<Rightarrow> sqrt ((px p - px (last (p # ps)))\<^sup>2 + (py p - py (last (p # ps)))\<^sup>2)),
      bez_bbox = (\<lambda>bez. case control_points bez of
                    [] \<Rightarrow> BBox 0 0 0 0
                  | p # ps \<Rightarrow> BBox (min (px p) (px (last (p # ps)))) (max (px p) (px (last (p # ps))))
                                   (min (py p) (py (last (p # ps)))) (max (py p) (py (last (p # ps))))),
      bez_project = (\<lambda>bez q. case control_points bez of
                       [] \<Rightarrow> Projection q 0 0
                     | p # ps \<Rightarrow> segment_project p (last (p # ps)) q),
      bez_split = (\<lambda>bez t0 t1. case control_points bez of
                     [] \<Rightarrow> bez
                   | p # ps \<Rightarrow> Bezier [segment_point p (last (p # ps)) t0, segment_point p (last (p # ps)) t0,
                                       segment_point p (last (p # ps)) t1, segment_point p (last (p # ps)) t1]),
      arcToBeziers = (\<lambda>a. []),
      parseCommands = (\<lambda>path. parsed),
      commandsToString = (\<lambda>cmds. concat (map command_letter cmds))\<rparr>"

text \<open>A store with no object handed out yet.\<close>

definition empty_store :: Store where
  "empty_store = \<lparr>objs = (\<lambda>r. ClosePathCommand []), next_ref = 0\<rparr>"

section \<open>Example paths\<close>

text \<open>
  The path data built by the constructor, with the kernel for examples, from a list of
  parsed commands: in a given store, and in the empty store.
\<close>

definition build_in :: "Store \<Rightarrow> DrawCommand list \<Rightarrow> error + Store \<times> SvgPathData" where
  "build_in st parsed = new_SvgPathData (line_kernel parsed) st ''''"

definition build :: "DrawCommand list \<Rightarrow> error + Store \<times> SvgPathData" where
  "build parsed = build_in empty_store parsed"

text \<open>An arc whose end is its start, and an arc with \<open>rx = 0\<close> from (5,5) to (10,5), then a line.\<close>

definition arcs_example :: "DrawCommand list" where
  "arcs_example =
     [MoveCommand [None, Some (Point 5 5)],
      EllipticalArcCommand [Some (Point 5 5), Some (Point 5 5)] (ArcArgs 5 5 3 3 0 0 0 5 5),
      EllipticalArcCommand [Some (Point 5 5), Some (Point 10 5)] (ArcArgs 5 5 0 3 0 0 0 10 5),
      LineCommand [Some (Point 10 5), Some (Point 20 5)]]"

text \<open>M 0,0 L 10,0.\<close>

definition line_example :: "DrawCommand list" where
  "line_example =
     [MoveCommand [None, Some (Point 0 0)],
      LineCommand [Some (Point 0 0), Some (Point 10 0)]]"

text \<open>M 0,0 L 10,0 L 10,10: the point (10,0) is on both lines.\<close>

definition corner_example :: "DrawCommand list" where
  "corner_example =
     [MoveCommand [None, Some (Point 0 0)],
      LineCommand [Some (Point 0 0), Some (Point 10 0)],
      LineCommand [Some (Point 10 0), Some (Point 10 10)]]"

text \<open>M 0,0 L 1,1 M 5,5 L 6,6 Z.\<close>

definition two_moves_example :: "DrawCommand list" where
  "two_moves_example =
     [MoveCommand [None, Some (Point 0 0)],
      LineCommand [Some (Point 0 0), Some (Point 1 1)],
      MoveCommand [Some (Point 1 1), Some (Point 5 5)],
      LineCommand [Some (Point 5 5), Some (Point 6 6)],
      ClosePathCommand [Some (Point 6 6), Some (Point 5 5)]]"

lemmas build_defs =
  build_def build_in_def new_SvgPathData_def line_kernel_def empty_store_def alloc_def
  initInternalState_def init_step_def init_state_def point_at_def
  new_DrawCommandWrapper_def expandBounds_def rebuildInternalState_def drawCommands_def
  wrapper_commands_def createSubPathCommands_def group_step_def Let_def


text \<open>The store and the path data that \<open>build corner_example\<close> returns.\<close>

definition corner_store :: Store where
  "corner_store =
     \<lparr>objs = (\<lambda>r. ClosePathCommand [])
        (0 := MoveCommand [None, Some (Point 0 0)],
         1 := LineCommand [Some (Point 0 0), Some (Point 10 0)],
         2 := LineCommand [Some (Point 10 0), Some (Point 10 10)]),
      next_ref = 3\<rparr>"

definition corner_path :: SvgPathData where
  "corner_path =
     \<lparr>this_originalDrawCommands = [0, 1, 2],
      this_drawCommandWrappers =
        [new_DrawCommandWrapper 0 [],
         new_DrawCommandWrapper 1 [Bezier [Point 0 0, Point 0 0, Point 10 0, Point 10 0]],
         new_DrawCommandWrapper 2 [Bezier [Point 10 0, Point 10 0, Point 10 10, Point 10 10]]],
      this_commands = [SubPathCommand [0, 1, 2]],
      this_path = [],
      this_length = 20,
      this_bounds = Some (Rect 0 0 10 10)\<rparr>"

text \<open>A wrapper with the two segments of the corner, as the wrapper of an arc has several.\<close>

definition two_segments :: DrawCommandWrapper where
  "two_segments =
     new_DrawCommandWrapper 0
       [Bezier [Point 0 0, Point 0 0, Point 10 0, Point 10 0],
        Bezier [Point 10 0, Point 10 0, Point 10 10, Point 10 10]]"


text \<open>M 0,0 L 10,0 Z Z L 5,5: the second Z comes when no first point is established.\<close>

definition double_close_example :: "DrawCommand list" where
  "double_close_example =
     [MoveCommand [None, Some (Point 0 0)],
      LineCommand [Some (Point 0 0), Some (Point 10 0)],
      ClosePathCommand [Some (Point 10 0), Some (Point 0 0)],
      ClosePathCommand [Some (Point 0 0), Some (Point 0 0)],
      LineCommand [Some (Point 0 0), Some (Point 5 5)]]"


section \<open>Notions for the proofs\<close>

text \<open>Two stores in which every object has the same variant and the same number of points.\<close>

definition same_shape :: "(ref \<Rightarrow> DrawCommand) \<Rightarrow> (ref \<Rightarrow> DrawCommand) \<Rightarrow> bool" where
  "same_shape h h' =
     (\<forall>r. constructor_of (h' r) = constructor_of (h r)
          \<and> length (points (h' r)) = length (points (h r)))"

text \<open>
  The value that interpolate_command leaves in the command \<open>c\<close> when the commands
  \<open>c1\<close> of the start path and \<open>c2\<close> of the end path are other objects: the loops of
  interpolate_command, run on the values instead of the store.
\<close>

definition interpolated_args :: "Kernel \<Rightarrow> real \<Rightarrow> ArcArgs \<Rightarrow> ArcArgs \<Rightarrow> nat \<Rightarrow> ArcArgs \<Rightarrow> ArcArgs" where
  "interpolated_args K fraction a1 a2 i a =
     arg_upd a i
       (if i = 5 \<or> i = 6 then (if fraction = 0 then arg_nth a1 i else arg_nth a2 i)
        else lerp K (arg_nth a1 i) (arg_nth a2 i) fraction)"

definition interpolated_points :: "Kernel \<Rightarrow> real \<Rightarrow> DrawCommand \<Rightarrow> DrawCommand \<Rightarrow> nat \<Rightarrow> Point option list \<Rightarrow> Point option list" where
  "interpolated_points K fraction c1 c2 i ps =
     (case (point_at c1 i, point_at c2 i) of
        (Some startPoint, Some endPoint) \<Rightarrow>
          array_set ps i (Point (lerp K (px startPoint) (px endPoint) fraction)
                                (lerp K (py startPoint) (py endPoint) fraction))
      | _ \<Rightarrow> ps)"

definition interpolated :: "Kernel \<Rightarrow> real \<Rightarrow> DrawCommand \<Rightarrow> DrawCommand \<Rightarrow> DrawCommand \<Rightarrow> DrawCommand" where
  "interpolated K fraction c c1 c2 =
     (case (args_of c, args_of c1, args_of c2) of
        (Some a, Some a1, Some a2) \<Rightarrow>
          set_args c (fold (interpolated_args K fraction a1 a2) [0..<args_length] a)
      | _ \<Rightarrow>
          set_points c (fold (interpolated_points K fraction c1 c2) [0..<length (points c1)] (points c)))"

text \<open>The commands of a path, of the start path and of the end path at the same indices.\<close>

definition command_triples :: "SvgPathData \<Rightarrow> SvgPathData \<Rightarrow> SvgPathData \<Rightarrow> (ref \<times> ref \<times> ref) list" where
  "command_triples self start endp =
     concat (map (\<lambda>is. map (\<lambda>jd. (snd jd,
                                   commands (this_commands start ! fst is) ! fst jd,
                                   commands (this_commands endp ! fst is) ! fst jd))
                           (enumerate 0 (commands (snd is))))
                 (enumerate 0 (this_commands self)))"


text \<open>
  Three paths M A L with the same variants and point counts, to be built one after the
  other in one store with \<open>line_example\<close> as a fourth path.
\<close>

definition arc_self_example :: "DrawCommand list" where
  "arc_self_example =
     [MoveCommand [None, Some (Point 0 0)],
      EllipticalArcCommand [Some (Point 0 0), Some (Point 2 0)] (ArcArgs 0 0 1 1 0 0 0 2 0),
      LineCommand [Some (Point 2 0), Some (Point 3 3)]]"

definition arc_start_example :: "DrawCommand list" where
  "arc_start_example =
     [MoveCommand [None, Some (Point 0 0)],
      EllipticalArcCommand [Some (Point 0 0), Some (Point 4 0)] (ArcArgs 0 0 2 2 0 1 0 4 0),
      LineCommand [Some (Point 4 0), Some (Point 5 5)]]"

definition arc_end_example :: "DrawCommand list" where
  "arc_end_example =
     [MoveCommand [None, Some (Point 10 10)],
      EllipticalArcCommand [Some (Point 10 10), Some (Point 8 0)] (ArcArgs 10 10 4 6 90 0 1 8 0),
      LineCommand [Some (Point 8 0), Some (Point 9 1)]]"


text \<open>
  The store after \<open>arc_self_example\<close>, \<open>arc_start_example\<close>, \<open>arc_end_example\<close> and
  \<open>line_example\<close> have been built in it, in this order, and the four paths.
\<close>

definition morph_store :: Store where
  "morph_store =
     \<lparr>objs = (\<lambda>r. ClosePathCommand [])
        (0 := MoveCommand [None, Some (Point 0 0)],
         1 := EllipticalArcCommand [Some (Point 0 0), Some (Point 2 0)] (ArcArgs 0 0 1 1 0 0 0 2 0),
         2 := LineCommand [Some (Point 2 0), Some (Point 3 3)],
         3 := MoveCommand [None, Some (Point 0 0)],
         4 := EllipticalArcCommand [Some (Point 0 0), Some (Point 4 0)] (ArcArgs 0 0 2 2 0 1 0 4 0),
         5 := LineCommand [Some (Point 4 0), Some (Point 5 5)],
         6 := MoveCommand [None, Some (Point 10 10)],
         7 := EllipticalArcCommand [Some (Point 10 10), Some (Point 8 0)] (ArcArgs 10 10 4 6 90 0 1 8 0),
         8 := LineCommand [Some (Point 8 0), Some (Point 9 1)],
         9 := MoveCommand [None, Some (Point 0 0)],
         10 := LineCommand [Some (Point 0 0), Some (Point 10 0)]),
      next_ref = 11\<rparr>"

definition morph_self :: SvgPathData where
  "morph_self =
     \<lparr>this_originalDrawCommands = [0, 1, 2],
      this_drawCommandWrappers =
        [new_DrawCommandWrapper 0 [],
         new_DrawCommandWrapper 1 [],
         new_DrawCommandWrapper 2 [Bezier [Point 2 0, Point 2 0, Point 3 3, Point 3 3]]],
      this_commands = [SubPathCommand [0, 1, 2]],
      this_path = [],
      this_length = sqrt 10,
      this_bounds = Some (Rect 0 0 3 3)\<rparr>"

definition morph_start :: SvgPathData where
  "morph_start =
     \<lparr>this_originalDrawCommands = [3, 4, 5],
      this_drawCommandWrappers =
        [new_DrawCommandWrapper 3 [],
         new_DrawCommandWrapper 4 [],
         new_DrawCommandWrapper 5 [Bezier [Point 4 0, Point 4 0, Point 5 5, Point 5 5]]],
      this_commands = [SubPathCommand [3, 4, 5]],
      this_path = [],
      this_length = sqrt 26,
      this_bounds = Some (Rect 0 0 5 5)\<rparr>"

definition morph_end :: SvgPathData where
  "morph_end =
     \<lparr>this_originalDrawCommands = [6, 7, 8],
      this_drawCommandWrappers =
        [new_DrawCommandWrapper 6 [],
         new_DrawCommandWrapper 7 [],
         new_DrawCommandWrapper 8 [Bezier [Point 8 0, Point 8 0, Point 9 1, Point 9 1]]],
      this_commands = [SubPathCommand [6, 7, 8]],
      this_path = [],
      this_length = sqrt 2,
      this_bounds = Some (Rect 9 1 10 10)\<rparr>"

definition morph_line :: SvgPathData where
  "morph_line =
     \<lparr>this_originalDrawCommands = [9, 10],
      this_drawCommandWrappers =
        [new_DrawCommandWrapper 9 [],
         new_DrawCommandWrapper 10 [Bezier [Point 0 0, Point 0 0, Point 10 0, Point 10 0]]],
      this_commands = [SubPathCommand [9, 10]],
      this_path = [],
      this_length = 10,
      this_bounds = Some (Rect 0 0 10 0)\<rparr>"

text \<open>The stores and the paths that \<open>build\<close> returns for the other examples.\<close>

definition arcs_store :: Store where
  "arcs_store =
     \<lparr>objs = (\<lambda>r. ClosePathCommand [])
        (0 := MoveCommand [None, Some (Point 5 5)],
         1 := EllipticalArcCommand [Some (Point 5 5), Some (Point 5 5)] (ArcArgs 5 5 3 3 0 0 0 5 5),
         2 := EllipticalArcCommand [Some (Point 5 5), Some (Point 10 5)] (ArcArgs 5 5 0 3 0 0 0 10 5),
         3 := LineCommand [Some (Point 10 5), Some (Point 20 5)]),
      next_ref = 4\<rparr>"

definition arcs_path :: SvgPathData where
  "arcs_path =
     \<lparr>this_originalDrawCommands = [0, 1, 2, 3],
      this_drawCommandWrappers =
        [new_DrawCommandWrapper 0 [],
         new_DrawCommandWrapper 1 [],
         new_DrawCommandWrapper 2 [Bezier [Point 5 5, Point 5 5, Point 0 0, Point 0 0]],
         new_DrawCommandWrapper 3 [Bezier [Point 0 0, Point 0 0, Point 20 5, Point 20 5]]],
      this_commands = [SubPathCommand [0, 1, 2, 3]],
      this_path = [],
      this_length = 5 + sqrt 425,
      this_bounds = Some (Rect 5 5 20 5)\<rparr>"

definition two_moves_store :: Store where
  "two_moves_store =
     \<lparr>objs = (\<lambda>r. ClosePathCommand [])
        (0 := MoveCommand [None, Some (Point 0 0)],
         1 := LineCommand [Some (Point 0 0), Some (Point 1 1)],
         2 := MoveCommand [Some (Point 1 1), Some (Point 5 5)],
         3 := LineCommand [Some (Point 5 5), Some (Point 6 6)],
         4 := ClosePathCommand [Some (Point 6 6), Some (Point 5 5)]),
      next_ref = 5\<rparr>"

definition two_moves_path :: SvgPathData where
  "two_moves_path =
     \<lparr>this_originalDrawCommands = [0, 1, 2, 3, 4],
      this_drawCommandWrappers =
        [new_DrawCommandWrapper 0 [],
         new_DrawCommandWrapper 1 [Bezier [Point 0 0, Point 0 0, Point 1 1, Point 1 1]],
         new_DrawCommandWrapper 2 [],
         new_DrawCommandWrapper 3 [Bezier [Point 5 5, Point 5 5, Point 6 6, Point 6 6]],
         new_DrawCommandWrapper 4 [Bezier [Point 6 6, Point 6 6, Point 0 0, Point 0 0]]],
      this_commands = [SubPathCommand [0, 1], SubPathCommand [2, 3, 4]],
      this_path = [],
      this_length = 2 * sqrt 2 + sqrt 72,
      this_bounds = Some (Rect 0 0 6 6)\<rparr>"

definition double_close_store :: Store where
  "double_close_store =
     \<lparr>objs = (\<lambda>r. ClosePathCommand [])
        (0 := MoveCommand [None, Some (Point 0 0)],
         1 := LineCommand [Some (Point 0 0), Some (Point 10 0)],
         2 := ClosePathCommand [Some (Point 10 0), Some (Point 0 0)],
         3 := ClosePathCommand [Some (Point 0 0), Some (Point 0 0)],
         4 := LineCommand [Some (Point 0 0), Some (Point 5 5)]),
      next_ref = 5\<rparr>"

definition double_close_path :: SvgPathData where
  "double_close_path =
     \<lparr>this_originalDrawCommands = [0, 1, 2, 3, 4],
      this_drawCommandWrappers =
        [new_DrawCommandWrapper 0 [],
         new_DrawCommandWrapper 1 [Bezier [Point 0 0, Point 0 0, Point 10 0, Point 10 0]],
         new_DrawCommandWrapper 2 [Bezier [Point 10 0, Point 10 0, Point 0 0, Point 0 0]],
         new_DrawCommandWrapper 4 [Bezier [Point 10 0, Point 10 0, Point 5 5, Point 5 5]]],
      this_commands = [SubPathCommand [0, 1, 2, 4]],
      this_path = [],
      this_length = 20 + sqrt 50,
      this_bounds = Some (Rect 0 0 10 5)\<rparr>"


definition line_store :: Store where
  "line_store =
     \<lparr>objs = (\<lambda>r. ClosePathCommand [])
        (0 := MoveCommand [None, Some (Point 0 0)],
         1 := LineCommand [Some (Point 0 0), Some (Point 10 0)]),
      next_ref = 2\<rparr>"

definition line_path :: SvgPathData where
  "line_path =
     \<lparr>this_originalDrawCommands = [0, 1],
      this_drawCommandWrappers =
        [new_DrawCommandWrapper 0 [],
         new_DrawCommandWrapper 1 [Bezier [Point 0 0, Point 0 0, Point 10 0, Point 10 0]]],
      this_commands = [SubPathCommand [0, 1]],
      this_path = [],
      this_length = 10,
      this_bounds = Some (Rect 0 0 10 0)\<rparr>"

text \<open>The state of the derivation pass after M 0,0 L 1,1 of \<open>two_moves_example\<close>.\<close>

definition two_moves_state :: InternalState where
  "two_moves_state =
     \<lparr>len = sqrt 2, bounds = Some (Rect 0 0 1 1), firstPoint = Some (Point 0 0),
      currentPoint = Point 1 1,
      drawCommandWrappers =
        [new_DrawCommandWrapper 0 [],
         new_DrawCommandWrapper 1 [Bezier [Point 0 0, Point 0 0, Point 1 1, Point 1 1]]]\<rparr>"


lemmas init_defs =
  initInternalState_def init_step_def init_state_def point_at_def
  new_DrawCommandWrapper_def expandBounds_def line_kernel_def Let_def


text \<open>
  The store \<open>h'\<close> differs from \<open>h\<close> in values only, and only within the objects of
  \<open>S\<close>: every object has kept its variant and its number of points, an object outside
  \<open>S\<close> is unchanged, and an arc has kept its points.
\<close>

definition values_changed :: "ref set \<Rightarrow> (ref \<Rightarrow> DrawCommand) \<Rightarrow> (ref \<Rightarrow> DrawCommand) \<Rightarrow> bool" where
  "values_changed S h h' =
     (same_shape h h'
      \<and> (\<forall>r. r \<notin> S \<longrightarrow> h' r = h r)
      \<and> (\<forall>r. constructor_of (h r) = EllipticalArc \<longrightarrow> points (h' r) = points (h r)))"


section \<open>Properties of the grouping\<close>

lemma group_scan:
  "fold (group_step h) (rev cs) ([], []) = (G, cur) \<Longrightarrow>
     concat (map rev (rev G)) = dropWhile (\<lambda>r. constructor_of (h r) \<noteq> Move) cs
     \<and> rev cur = takeWhile (\<lambda>r. constructor_of (h r) \<noteq> Move) cs"
proof (induction cs arbitrary: G cur)
  case Nil
  then show ?case by simp
next
  case (Cons c cs)
  obtain G0 cur0 where s0: "fold (group_step h) (rev cs) ([], []) = (G0, cur0)"
    by (cases "fold (group_step h) (rev cs) ([], [])") auto
  from Cons.IH [OF s0] have ih:
    "concat (map rev (rev G0)) = dropWhile (\<lambda>r. constructor_of (h r) \<noteq> Move) cs"
    "rev cur0 = takeWhile (\<lambda>r. constructor_of (h r) \<noteq> Move) cs"
    by simp_all
  have step: "(G, cur) = group_step h c (G0, cur0)"
    using Cons.prems s0 by simp
  show ?case
  proof (cases "constructor_of (h c) = Move")
    case True
    with step have "G = G0 @ [cur0 @ [c]]" "cur = []"
      by (simp_all add: group_step_def)
    with True ih show ?thesis by simp
  next
    case False
    with step have "G = G0" "cur = cur0 @ [c]"
      by (simp_all add: group_step_def)
    with False ih show ?thesis by simp
  qed
qed

lemma flatten_createSubPathCommands:
  "flatten (createSubPathCommands h cs) = dropWhile (\<lambda>r. constructor_of (h r) \<noteq> Move) cs"
proof (cases "cs = []")
  case True
  then show ?thesis by (simp add: flatten_def createSubPathCommands_def)
next
  case False
  obtain G cur where s: "fold (group_step h) (rev cs) ([], []) = (G, cur)"
    by (cases "fold (group_step h) (rev cs) ([], [])") auto
  have "flatten (createSubPathCommands h cs) = concat (map rev (rev G))"
    using False s by (simp add: flatten_def createSubPathCommands_def Let_def comp_def)
  with group_scan [OF s] show ?thesis by simp
qed

text \<open>
  C1, as the code has it: for a command sequence that begins with a Move command, the
  command lists of the groups of createSubPathCommands, concatenated in order, are the
  sequence itself.
\<close>

theorem createSubPathCommands_roundtrip:
  "cmds \<noteq> [] \<Longrightarrow> constructor_of (h (hd cmds)) = Move \<Longrightarrow>
     flatten (createSubPathCommands h cmds) = cmds"
  by (cases cmds) (simp_all add: flatten_createSubPathCommands)

theorem createSubPathCommands_roundtrip_witness:
  "[0, 1] \<noteq> ([] :: ref list)
   \<and> constructor_of (objs line_store (hd [0, 1])) = Move
   \<and> flatten (createSubPathCommands (objs line_store) [0, 1]) = [0, 1]"
  using createSubPathCommands_roundtrip [of "[0, 1]" "objs line_store"]
  by (simp add: line_store_def)

text \<open>
  The commands before the first Move are in no group: for the commands 1, 2 and 3 of
  M 0,0 L 1,1 M 5,5 L 6,6 Z, a Line, a Move and a Line, the groups hold the Move and the
  second Line only.
\<close>

theorem createSubPathCommands_drops_leading_commands:
  "map (\<lambda>r. constructor_of (objs two_moves_store r)) [1, 2, 3] = [Line, Move, Line]
   \<and> createSubPathCommands (objs two_moves_store) [1, 2, 3] = [SubPathCommand [2, 3]]
   \<and> flatten (createSubPathCommands (objs two_moves_store) [1, 2, 3]) \<noteq> [1, 2, 3]"
  by (simp add: two_moves_store_def createSubPathCommands_def group_step_def flatten_def)

section \<open>The example paths\<close>

lemma build_corner_example: "build corner_example = Inr (corner_store, corner_path)"
  by (simp add: build_defs corner_example_def corner_store_def corner_path_def numeral_eq_Suc)

lemma build_morph_examples:
  "(case build arc_self_example of Inl e \<Rightarrow> Inl e | Inr s1 \<Rightarrow>
   (case build_in (fst s1) arc_start_example of Inl e \<Rightarrow> Inl e | Inr s2 \<Rightarrow>
   (case build_in (fst s2) arc_end_example of Inl e \<Rightarrow> Inl e | Inr s3 \<Rightarrow>
   (case build_in (fst s3) line_example of Inl e \<Rightarrow> Inl e | Inr s4 \<Rightarrow>
      Inr (fst s4, snd s1, snd s2, snd s3, snd s4)))))
   = Inr (morph_store, morph_self, morph_start, morph_end, morph_line)"
  by (simp add: build_defs line_example_def arc_self_example_def arc_start_example_def
        arc_end_example_def morph_store_def morph_self_def morph_start_def morph_end_def
        morph_line_def numeral_eq_Suc)

lemma build_arcs_example: "build arcs_example = Inr (arcs_store, arcs_path)"
  by (simp add: build_defs arcs_example_def arcs_store_def arcs_path_def numeral_eq_Suc)

lemma build_two_moves_example: "build two_moves_example = Inr (two_moves_store, two_moves_path)"
  by (simp add: build_defs two_moves_example_def two_moves_store_def two_moves_path_def numeral_eq_Suc)

lemma build_double_close_example:
  "build double_close_example = Inr (double_close_store, double_close_path)"
  by (simp add: build_defs double_close_example_def double_close_store_def double_close_path_def
        numeral_eq_Suc)


lemma build_line_example: "build line_example = Inr (line_store, line_path)"
  by (simp add: build_defs line_example_def line_store_def line_path_def numeral_eq_Suc)

lemma two_moves_prefix:
  "initInternalState (line_kernel []) (objs two_moves_store) [0, 1] = Inr two_moves_state"
  by (simp add: init_defs two_moves_store_def two_moves_state_def)


section \<open>Properties of forEach\<close>

lemma forEach_append:
  "forEach f (xs @ ys) s = (case forEach f xs s of Inl e \<Rightarrow> Inl e | Inr s' \<Rightarrow> forEach f ys s')"
  by (induction xs arbitrary: s) (auto split: sum.splits)

lemma forEach_invariant:
  assumes "I s"
    and "\<And>x s. x \<in> set xs \<Longrightarrow> I s \<Longrightarrow> \<exists>s'. f x s = Inr s' \<and> I s'"
  shows "\<exists>s'. forEach f xs s = Inr s' \<and> I s'"
  using assms
proof (induction xs arbitrary: s)
  case Nil
  then show ?case by simp
next
  case (Cons x xs)
  from Cons.prems obtain s1 where s1: "f x s = Inr s1" "I s1"
    by (meson list.set_intros(1))
  from Cons.IH [OF s1(2)] Cons.prems(2) obtain s' where "forEach f xs s1 = Inr s'" "I s'"
    by (meson list.set_intros(2))
  with s1 show ?case by simp
qed

lemma forEach_concat:
  "forEach f (concat xss) s = forEach (\<lambda>xs. forEach f xs) xss s"
  by (induction xss arbitrary: s) (auto simp: forEach_append split: sum.splits)

lemma forEach_map: "forEach f (map g xs) s = forEach (\<lambda>x. f (g x)) xs s"
  by (induction xs arbitrary: s) (auto split: sum.splits)

section \<open>Properties of the derivation pass\<close>

lemma arc_loop_frame:
  "arc_loop K cs acc = Inr acc' \<Longrightarrow>
     drawCommandWrappers (fst acc') = drawCommandWrappers (fst acc)
     \<and> firstPoint (fst acc') = firstPoint (fst acc)"
  by (induction K cs acc rule: arc_loop.induct) (auto simp: Let_def)

lemma init_step_ClosePath:
  "constructor_of (h z) = ClosePath \<Longrightarrow>
     init_step K h z s =
       Inr ((case firstPoint s of
               Some fp \<Rightarrow>
                 s\<lparr>len := len s + distance K fp (currentPoint s),
                   drawCommandWrappers := drawCommandWrappers s @
                     [new_DrawCommandWrapper z [Bezier [currentPoint s, currentPoint s, fp, fp]]]\<rparr>
             | None \<Rightarrow> s)\<lparr>firstPoint := None\<rparr>)"
  by (cases "h z") (simp_all add: init_step_def)

lemma init_step_Move:
  "constructor_of (h m) = Move \<Longrightarrow> point_at (h m) 1 = Some p \<Longrightarrow>
     init_step K h m s =
       Inr (s\<lparr>firstPoint := (if firstPoint s = None then Some p else firstPoint s),
              currentPoint := p,
              bounds := expandBounds (bounds s) (px p) (py p),
              drawCommandWrappers := drawCommandWrappers s @ [new_DrawCommandWrapper m []]\<rparr>)"
  by (cases "h m") (simp_all add: init_step_def)

lemma init_step_firstPoint:
  "constructor_of (h c) \<noteq> ClosePath \<Longrightarrow> init_step K h c s = Inr s' \<Longrightarrow> firstPoint s = Some fp \<Longrightarrow>
     firstPoint s' = Some fp"
  by (cases "h c")
     (auto simp: init_step_def Let_def split: option.splits ArcArgs.splits if_splits sum.splits
           dest!: arc_loop_frame)

lemma forEach_firstPoint:
  "\<forall>c\<in>set cs. constructor_of (h c) \<noteq> ClosePath \<Longrightarrow> forEach (init_step K h) cs s = Inr s' \<Longrightarrow>
     firstPoint s = Some fp \<Longrightarrow> firstPoint s' = Some fp"
proof (induction cs arbitrary: s)
  case Nil
  then show ?case by simp
next
  case (Cons c cs)
  from Cons.prems(2) obtain s1 where s1: "init_step K h c s = Inr s1"
    and rest: "forEach (init_step K h) cs s1 = Inr s'"
    by (auto split: sum.splits)
  from Cons.prems(1) s1 Cons.prems(3) have "firstPoint s1 = Some fp"
    by (auto dest: init_step_firstPoint)
  with Cons.IH [OF _ rest] Cons.prems(1) show ?case by simp
qed

text \<open>
  C8, as the code has it: a Move command records its endpoint as the new current point,
  and as the first point of the sub-path only when no first point is established (at
  the start and after a ClosePath). A later ClosePath with no ClosePath in between
  therefore closes back to the first point that was established before the Move, and to
  the endpoint of the Move only when there was none.
\<close>

theorem closePath_closes_to_first_point:
  assumes m: "constructor_of (h m) = Move" and p: "point_at (h m) 1 = Some p"
    and mid: "\<forall>c\<in>set mid. constructor_of (h c) \<noteq> ClosePath"
    and z: "constructor_of (h z) = ClosePath"
  shows "\<exists>s0. init_step K h m s = Inr s0 \<and> currentPoint s0 = p
           \<and> firstPoint s0 = Some (case firstPoint s of None \<Rightarrow> p | Some q \<Rightarrow> q)
           \<and> (\<forall>s1. forEach (init_step K h) mid s0 = Inr s1 \<longrightarrow>
                forEach (init_step K h) (m # mid @ [z]) s =
                  Inr (s1\<lparr>len := len s1 + distance K (case firstPoint s of None \<Rightarrow> p | Some q \<Rightarrow> q) (currentPoint s1),
                          drawCommandWrappers := drawCommandWrappers s1 @
                            [new_DrawCommandWrapper z
                               [Bezier [currentPoint s1, currentPoint s1,
                                        case firstPoint s of None \<Rightarrow> p | Some q \<Rightarrow> q,
                                        case firstPoint s of None \<Rightarrow> p | Some q \<Rightarrow> q]]],
                          firstPoint := None\<rparr>))"
proof -
  let ?fp = "case firstPoint s of None \<Rightarrow> p | Some q \<Rightarrow> q"
  let ?s0 = "s\<lparr>firstPoint := (if firstPoint s = None then Some p else firstPoint s),
              currentPoint := p,
              bounds := expandBounds (bounds s) (px p) (py p),
              drawCommandWrappers := drawCommandWrappers s @ [new_DrawCommandWrapper m []]\<rparr>"
  have s0: "init_step K h m s = Inr ?s0" using m p by (rule init_step_Move [where h=h and m=m])
  have fp0: "firstPoint ?s0 = Some ?fp" by (cases "firstPoint s") simp_all
  have close: "forEach (init_step K h) (m # mid @ [z]) s =
      Inr (s1\<lparr>len := len s1 + distance K ?fp (currentPoint s1),
              drawCommandWrappers := drawCommandWrappers s1 @
                [new_DrawCommandWrapper z [Bezier [currentPoint s1, currentPoint s1, ?fp, ?fp]]],
              firstPoint := None\<rparr>)"
    if run: "forEach (init_step K h) mid ?s0 = Inr s1" for s1
  proof -
    have "firstPoint s1 = Some ?fp" by (rule forEach_firstPoint [OF mid run fp0])
    then show ?thesis
      using s0 run z by (simp add: forEach_append init_step_ClosePath [where h=h and z=z])
  qed
  show ?thesis
    using s0 fp0 close by (intro exI [of _ ?s0]) simp
qed

text \<open>
  In M 0,0 L 1,1 M 5,5 L 6,6 Z the second Move comes when (0,0) is the first point.
\<close>

theorem closePath_closes_to_first_point_witness:
  "constructor_of (objs two_moves_store 2) = Move
   \<and> point_at (objs two_moves_store 2) 1 = Some (Point 5 5)
   \<and> constructor_of (objs two_moves_store 3) \<noteq> ClosePath
   \<and> constructor_of (objs two_moves_store 4) = ClosePath
   \<and> firstPoint two_moves_state = Some (Point 0 0)
   \<and> (\<exists>s0 s1. init_step (line_kernel []) (objs two_moves_store) 2 two_moves_state = Inr s0
        \<and> currentPoint s0 = Point 5 5
        \<and> firstPoint s0 = Some (Point 0 0)
        \<and> forEach (init_step (line_kernel []) (objs two_moves_store)) [3] s0 = Inr s1
        \<and> forEach (init_step (line_kernel []) (objs two_moves_store)) [2, 3, 4] two_moves_state =
            Inr (s1\<lparr>len := len s1 + distance (line_kernel []) (Point 0 0) (currentPoint s1),
                    drawCommandWrappers := drawCommandWrappers s1 @
                      [new_DrawCommandWrapper 4
                         [Bezier [currentPoint s1, currentPoint s1, Point 0 0, Point 0 0]]],
                    firstPoint := None\<rparr>))"
proof -
  let ?K = "line_kernel []" and ?h = "objs two_moves_store"
  have m: "constructor_of (?h 2) = Move" and p: "point_at (?h 2) 1 = Some (Point 5 5)"
    and mid: "\<forall>c\<in>set [3]. constructor_of (?h c) \<noteq> ClosePath"
    and z: "constructor_of (?h 4) = ClosePath"
    and fp: "firstPoint two_moves_state = Some (Point 0 0)"
    by (simp_all add: two_moves_store_def point_at_def two_moves_state_def)
  from closePath_closes_to_first_point [of ?h 2 "Point 5 5" "[3]" 4 ?K two_moves_state, OF m p mid z]
  obtain s0 where s0: "init_step ?K ?h 2 two_moves_state = Inr s0" "currentPoint s0 = Point 5 5"
    "firstPoint s0 = Some (Point 0 0)"
    and close: "\<forall>s1. forEach (init_step ?K ?h) [3] s0 = Inr s1 \<longrightarrow>
       forEach (init_step ?K ?h) (2 # [3] @ [4]) two_moves_state =
         Inr (s1\<lparr>len := len s1 + distance ?K (Point 0 0) (currentPoint s1),
                 drawCommandWrappers := drawCommandWrappers s1 @
                   [new_DrawCommandWrapper 4
                      [Bezier [currentPoint s1, currentPoint s1, Point 0 0, Point 0 0]]],
                 firstPoint := None\<rparr>)"
    by (auto simp: fp)
  have "\<exists>s1. forEach (init_step ?K ?h) [3] s0 = Inr s1"
    using s0(1) [symmetric]
    by (simp add: init_step_def two_moves_store_def point_at_def two_moves_state_def)
  then obtain s1 where s1: "forEach (init_step ?K ?h) [3] s0 = Inr s1" by blast
  with close have "forEach (init_step ?K ?h) [2, 3, 4] two_moves_state =
         Inr (s1\<lparr>len := len s1 + distance ?K (Point 0 0) (currentPoint s1),
                 drawCommandWrappers := drawCommandWrappers s1 @
                   [new_DrawCommandWrapper 4
                      [Bezier [currentPoint s1, currentPoint s1, Point 0 0, Point 0 0]]],
                 firstPoint := None\<rparr>)"
    by simp
  with m p mid z fp s0 s1 show ?thesis by auto
qed

text \<open>
  The ClosePath of M 0,0 L 1,1 M 5,5 L 6,6 Z gets the segment from (6,6) to (0,0), the
  endpoint of the first Move, not to (5,5), the endpoint of the most recent Move.
\<close>

theorem closePath_counterexample:
  "build two_moves_example = Inr (two_moves_store, two_moves_path)
   \<and> objs two_moves_store 2 = MoveCommand [Some (Point 1 1), Some (Point 5 5)]
   \<and> objs two_moves_store 4 = ClosePathCommand [Some (Point 6 6), Some (Point 5 5)]
   \<and> this_drawCommandWrappers two_moves_path ! 4 =
       new_DrawCommandWrapper 4 [Bezier [Point 6 6, Point 6 6, Point 0 0, Point 0 0]]
   \<and> bez_end (hd (sourceBeziers (this_drawCommandWrappers two_moves_path ! 4))) \<noteq> Some (Point 5 5)"
  by (simp add: build_two_moves_example two_moves_store_def two_moves_path_def
        new_DrawCommandWrapper_def bez_end_def)








text \<open>
  The branch of an arc with \<open>rx = 0\<close> or \<open>ry = 0\<close> whose end is not its start, for any
  kernel: the length grows by the distance of the arc's start and end and the bounds
  take in the end; the segment ends at \<open>new Point\<close>, which is the next current point.
\<close>

lemma init_step_zero_radius_arc:
  assumes "h cmd = EllipticalArcCommand ps (ArcArgs x0 y0 rx ry rot la sw x1 y1)"
    and "\<not> (x0 = x1 \<and> y0 = y1)" and "rx = 0 \<or> ry = 0"
  shows "init_step K h cmd s =
     Inr (s\<lparr>len := len s + distance K (Point x0 y0) (Point x1 y1),
            bounds := expandBounds (bounds s) x1 y1,
            drawCommandWrappers := drawCommandWrappers s @
              [new_DrawCommandWrapper cmd
                 [Bezier [currentPoint s, currentPoint s, new_Point K, new_Point K]]],
            currentPoint := new_Point K\<rparr>)"
  using assms by (auto simp: init_step_def Let_def)

text \<open>
  C4: an arc with \<open>rx = 0\<close> from (5,5) to (10,5), followed by a line to (20,5). The
  segment of the arc ends at \<open>new Point\<close>, (0,0) in the kernel for examples, not at the
  arc's end (10,5), and the line that follows starts there.
\<close>

theorem degenerate_line_arc_ends_at_new_Point:
  "map_sum id (\<lambda>ss. map sourceBeziers (this_drawCommandWrappers (snd ss))) (build arcs_example)
     = Inr [[], [], [Bezier [Point 5 5, Point 5 5, Point 0 0, Point 0 0]],
            [Bezier [Point 0 0, Point 0 0, Point 20 5, Point 20 5]]]"
  by (simp add: build_arcs_example arcs_path_def new_DrawCommandWrapper_def)



section \<open>Properties of project\<close>

lemma foldl_closer_last_min:
  "xs \<noteq> [] \<Longrightarrow>
     \<exists>k<length xs. foldl (closer key) None xs = Some (xs ! k)
        \<and> (\<forall>j<length xs. key (xs ! k) \<le> key (xs ! j) \<and> (k < j \<longrightarrow> key (xs ! k) < key (xs ! j)))"
proof (induction xs rule: rev_induct)
  case Nil
  then show ?case by simp
next
  case (snoc x xs)
  show ?case
  proof (cases "xs = []")
    case True
    then show ?thesis by (simp add: closer_def)
  next
    case False
    from snoc.IH [OF False] obtain k where k: "k < length xs"
      and res: "foldl (closer key) None xs = Some (xs ! k)"
      and mn: "\<forall>j<length xs. key (xs ! k) \<le> key (xs ! j) \<and> (k < j \<longrightarrow> key (xs ! k) < key (xs ! j))"
      by blast
    show ?thesis
    proof (cases "key (xs ! k) < key x")
      case True
      have "foldl (closer key) None (xs @ [x]) = Some ((xs @ [x]) ! k)"
        using res True k by (simp add: closer_def nth_append)
      moreover have "\<forall>j<length (xs @ [x]). key ((xs @ [x]) ! k) \<le> key ((xs @ [x]) ! j)
          \<and> (k < j \<longrightarrow> key ((xs @ [x]) ! k) < key ((xs @ [x]) ! j))"
        using mn True k by (auto simp: nth_append less_Suc_eq)
      ultimately show ?thesis using k by (intro exI [of _ k]) simp
    next
      case False
      have "foldl (closer key) None (xs @ [x]) = Some ((xs @ [x]) ! length xs)"
        using res False by (simp add: closer_def)
      moreover have "\<forall>j<length (xs @ [x]). key ((xs @ [x]) ! length xs) \<le> key ((xs @ [x]) ! j)
          \<and> (length xs < j \<longrightarrow> key ((xs @ [x]) ! length xs) < key ((xs @ [x]) ! j))"
        using mn False k by (fastforce simp: nth_append less_Suc_eq)
      ultimately show ?thesis by (intro exI [of _ "length xs"]) simp
    qed
  qed
qed

lemma map_filter_items_subset:
  "it \<in> set (List.map_filter
        (\<lambda>icw. map_option (\<lambda>p. \<lparr>projection = p, split_cw = fst icw\<rparr>) (g (snd icw))) xs)
     \<Longrightarrow> split_cw it \<in> fst ` set xs"
  by (force simp: List.map_filter_def)

lemma map_filter_items:
  "sorted_wrt (<) (map fst xs) \<Longrightarrow>
     sorted_wrt (<) (map split_cw (List.map_filter
        (\<lambda>icw. map_option (\<lambda>p. \<lparr>projection = p, split_cw = fst icw\<rparr>) (g (snd icw))) xs))"
proof (induction xs)
  case Nil
  then show ?case by simp
next
  case (Cons x xs)
  show ?case
  proof (cases "g (snd x)")
    case None
    with Cons show ?thesis by simp
  next
    case (Some p)
    have "fst x < split_cw it"
      if "it \<in> set (List.map_filter
        (\<lambda>icw. map_option (\<lambda>p. \<lparr>projection = p, split_cw = fst icw\<rparr>) (g (snd icw))) xs)" for it
      using map_filter_items_subset [OF that] Cons.prems by auto
    with Some Cons show ?thesis by simp
  qed
qed

lemma project_items_sorted: "sorted_wrt (<) (map split_cw (project_items K self point))"
  unfolding project_items_def
  by (rule map_filter_items) (simp add: enumerate_eq_zip)

lemma project_items_sound:
  "item \<in> set (project_items K self point) \<Longrightarrow>
     split_cw item < length (this_drawCommandWrappers self)
     \<and> wrapper_project K (this_drawCommandWrappers self ! split_cw item) point = Some (projection item)"
  by (auto simp: project_items_def List.map_filter_def enumerate_eq_zip in_set_zip)

text \<open>Every wrapper with a projection has its item in the list that project reduces.\<close>

lemma map_filter_mem: "x \<in> set xs \<Longrightarrow> f x = Some y \<Longrightarrow> y \<in> set (List.map_filter f xs)"
  by (induction xs) (auto simp: List.map_filter_simps split: option.splits)

lemma project_items_complete:
  assumes "j < length (this_drawCommandWrappers self)"
    and "wrapper_project K (this_drawCommandWrappers self ! j) point = Some q"
  shows "\<lparr>projection = q, split_cw = j\<rparr> \<in> set (project_items K self point)"
proof -
  have "(j, this_drawCommandWrappers self ! j) \<in> set (enumerate 0 (this_drawCommandWrappers self))"
    using assms(1) by (simp add: in_set_enumerate_eq)
  then show ?thesis
    unfolding project_items_def
    by (rule map_filter_mem) (simp add: assms(2))
qed

text \<open>
  Over the wrappers of the path: project returns the projection of the last wrapper of
  minimum distance, and null when no wrapper has a projection.
\<close>

lemma strictly_ascending_index:
  assumes "sorted_wrt (<) (xs :: nat list)" "a < length xs" "b < length xs" "xs ! a < xs ! b"
  shows "a < b"
proof (rule ccontr)
  assume "\<not> a < b"
  then consider "b = a" | "b < a" by arith
  then show False
  proof cases
    case 1
    with assms(4) show False by simp
  next
    case 2
    from sorted_wrt_nth_less [OF assms(1) 2 assms(2)] assms(4) show False by simp
  qed
qed



lemma project_over_wrappers:
  assumes some: "\<exists>i<length (this_drawCommandWrappers self).
                   wrapper_project K (this_drawCommandWrappers self ! i) point \<noteq> None"
  shows "\<exists>k<length (this_drawCommandWrappers self). \<exists>p.
           wrapper_project K (this_drawCommandWrappers self ! k) point = Some p
           \<and> project K self point = Some \<lparr>projection = p, split_cw = k\<rparr>
           \<and> (\<forall>j<length (this_drawCommandWrappers self). \<forall>q.
                 wrapper_project K (this_drawCommandWrappers self ! j) point = Some q \<longrightarrow>
                 proj_d p \<le> proj_d q \<and> (k < j \<longrightarrow> proj_d p < proj_d q))"
proof -
  let ?ws = "this_drawCommandWrappers self"
  let ?items = "project_items K self point"
  from some obtain i q0 where i: "i < length ?ws" "wrapper_project K (?ws ! i) point = Some q0"
    by blast
  have ne: "?items \<noteq> []"
    using project_items_complete [OF i] by (cases ?items) simp_all
  from foldl_closer_last_min [OF ne, of "\<lambda>item. proj_d (projection item)"]
  obtain k' where k': "k' < length ?items"
    and res0: "foldl (closer (\<lambda>item. proj_d (projection item))) None ?items = Some (?items ! k')"
    and mn: "\<forall>j<length ?items.
               proj_d (projection (?items ! k')) \<le> proj_d (projection (?items ! j))
               \<and> (k' < j \<longrightarrow> proj_d (projection (?items ! k')) < proj_d (projection (?items ! j)))"
    by blast
  define it where "it = ?items ! k'"
  have res: "project K self point = Some it"
    using res0 by (simp add: project_def it_def)
  have mem: "it \<in> set ?items" using k' by (simp add: it_def)
  from project_items_sound [OF mem] have k: "split_cw it < length ?ws"
    and p: "wrapper_project K (?ws ! split_cw it) point = Some (projection it)"
    by simp_all
  have rec: "it = \<lparr>projection = projection it, split_cw = split_cw it\<rparr>"
    by (cases it) simp
  have res': "project K self point = Some \<lparr>projection = projection it, split_cw = split_cw it\<rparr>"
    using res rec by simp
  have least: "proj_d (projection it) \<le> proj_d q
      \<and> (split_cw it < j \<longrightarrow> proj_d (projection it) < proj_d q)"
    if j: "j < length ?ws" and q: "wrapper_project K (?ws ! j) point = Some q" for j q
  proof -
    from project_items_complete [OF j q] obtain j' where j': "j' < length ?items"
      and itj: "?items ! j' = \<lparr>projection = q, split_cw = j\<rparr>"
      unfolding in_set_conv_nth by blast
    have pj: "projection (?items ! j') = q" and cj: "split_cw (?items ! j') = j"
      by (simp_all add: itj)
    from mn j' have a: "proj_d (projection it) \<le> proj_d q"
      and b: "k' < j' \<longrightarrow> proj_d (projection it) < proj_d q"
      unfolding it_def pj [symmetric] by blast+
    have "k' < j'" if lt: "split_cw it < j"
    proof (rule strictly_ascending_index [of "map split_cw ?items"])
      show "sorted_wrt (<) (map split_cw ?items)" by (rule project_items_sorted)
      show "k' < length (map split_cw ?items)" using k' by simp
      show "j' < length (map split_cw ?items)" using j' by simp
      show "map split_cw ?items ! k' < map split_cw ?items ! j'"
        using lt k' j' cj by (simp add: it_def)
    qed
    with a b show ?thesis by blast
  qed
  show ?thesis
  proof (intro exI conjI allI impI)
    show "split_cw it < length ?ws" by (rule k)
    show "wrapper_project K (?ws ! split_cw it) point = Some (projection it)" by (rule p)
    show "project K self point = Some \<lparr>projection = projection it, split_cw = split_cw it\<rparr>"
      by (rule res')
  next
    fix j q assume "j < length ?ws" "wrapper_project K (?ws ! j) point = Some q"
    from least [OF this] show "proj_d (projection it) \<le> proj_d q" by blast
  next
    fix j q assume "j < length ?ws" "wrapper_project K (?ws ! j) point = Some q" "split_cw it < j"
    with least [of j q] show "proj_d (projection it) < proj_d q" by blast
  qed
qed

lemma project_none:
  assumes "\<forall>i<length (this_drawCommandWrappers self).
             wrapper_project K (this_drawCommandWrappers self ! i) point = None"
  shows "project K self point = None"
proof -
  have "project_items K self point = []"
  proof (rule ccontr)
    assume "project_items K self point \<noteq> []"
    then obtain it where "it \<in> set (project_items K self point)"
      by (cases "project_items K self point") auto
    from project_items_sound [OF this] assms show False by force
  qed
  then show ?thesis by (simp add: project_def)
qed

text \<open>The two reductions, each over the list it folds.\<close>

lemma project_tie_items:
  "(sourceBeziers cw \<noteq> [] \<longrightarrow>
      (\<exists>k<length (sourceBeziers cw).
         wrapper_project K cw point = Some (bez_project K (sourceBeziers cw ! k) point)
         \<and> (\<forall>j<length (sourceBeziers cw).
               proj_d (bez_project K (sourceBeziers cw ! k) point)
                 \<le> proj_d (bez_project K (sourceBeziers cw ! j) point)
               \<and> (k < j \<longrightarrow> proj_d (bez_project K (sourceBeziers cw ! k) point)
                                < proj_d (bez_project K (sourceBeziers cw ! j) point)))))
   \<and> (project_items K self point \<noteq> [] \<longrightarrow>
      (\<exists>k<length (project_items K self point).
         project K self point = Some (project_items K self point ! k)
         \<and> (\<forall>j<length (project_items K self point).
               proj_d (projection (project_items K self point ! k))
                 \<le> proj_d (projection (project_items K self point ! j))
               \<and> (k < j \<longrightarrow> proj_d (projection (project_items K self point ! k))
                                < proj_d (projection (project_items K self point ! j))))))
   \<and> sorted_wrt (<) (map split_cw (project_items K self point))
   \<and> (\<forall>item \<in> set (project_items K self point).
         split_cw item < length (this_drawCommandWrappers self)
         \<and> wrapper_project K (this_drawCommandWrappers self ! split_cw item) point
             = Some (projection item))"
proof (intro conjI impI ballI)
  assume ne: "sourceBeziers cw \<noteq> []"
  let ?ps = "map (\<lambda>bez. bez_project K bez point) (sourceBeziers cw)"
  from ne have "?ps \<noteq> []" by simp
  from foldl_closer_last_min [OF this, of proj_d]
  show "\<exists>k<length (sourceBeziers cw).
         wrapper_project K cw point = Some (bez_project K (sourceBeziers cw ! k) point)
         \<and> (\<forall>j<length (sourceBeziers cw).
               proj_d (bez_project K (sourceBeziers cw ! k) point)
                 \<le> proj_d (bez_project K (sourceBeziers cw ! j) point)
               \<and> (k < j \<longrightarrow> proj_d (bez_project K (sourceBeziers cw ! k) point)
                                < proj_d (bez_project K (sourceBeziers cw ! j) point)))"
    by (auto simp: wrapper_project_def)
next
  assume ne: "project_items K self point \<noteq> []"
  from foldl_closer_last_min [OF ne, of "\<lambda>item. proj_d (projection item)"]
  show "\<exists>k<length (project_items K self point).
         project K self point = Some (project_items K self point ! k)
         \<and> (\<forall>j<length (project_items K self point).
               proj_d (projection (project_items K self point ! k))
                 \<le> proj_d (projection (project_items K self point ! j))
               \<and> (k < j \<longrightarrow> proj_d (projection (project_items K self point ! k))
                                < proj_d (projection (project_items K self point ! j))))"
    by (simp add: project_def)
next
  show "sorted_wrt (<) (map split_cw (project_items K self point))"
    by (rule project_items_sorted)
next
  fix item assume "item \<in> set (project_items K self point)"
  from project_items_sound [OF this]
  show "split_cw item < length (this_drawCommandWrappers self)" by simp
next
  fix item assume "item \<in> set (project_items K self point)"
  from project_items_sound [OF this]
  show "wrapper_project K (this_drawCommandWrappers self ! split_cw item) point = Some (projection item)"
    by simp
qed

text \<open>
  C3, as the code has it: in project(point) both reductions keep the previous candidate
  only when its distance is strictly less than the current one's, so among candidates
  of equal minimum distance the one evaluated last wins. Within a wrapper it is the
  projection on the last segment of minimum distance. Over the path, every wrapper with
  a projection has its item, in the order of the wrappers, and project returns the
  projection and the index of the last wrapper of minimum distance: no wrapper has a
  smaller distance, and every later wrapper has a greater one.
\<close>

theorem project_tie_keeps_later:
  "(sourceBeziers cw \<noteq> [] \<longrightarrow>
      (\<exists>k<length (sourceBeziers cw).
         wrapper_project K cw point = Some (bez_project K (sourceBeziers cw ! k) point)
         \<and> (\<forall>j<length (sourceBeziers cw).
               proj_d (bez_project K (sourceBeziers cw ! k) point)
                 \<le> proj_d (bez_project K (sourceBeziers cw ! j) point)
               \<and> (k < j \<longrightarrow> proj_d (bez_project K (sourceBeziers cw ! k) point)
                                < proj_d (bez_project K (sourceBeziers cw ! j) point)))))
   \<and> (project_items K self point \<noteq> [] \<longrightarrow>
      (\<exists>k<length (project_items K self point).
         project K self point = Some (project_items K self point ! k)
         \<and> (\<forall>j<length (project_items K self point).
               proj_d (projection (project_items K self point ! k))
                 \<le> proj_d (projection (project_items K self point ! j))
               \<and> (k < j \<longrightarrow> proj_d (projection (project_items K self point ! k))
                                < proj_d (projection (project_items K self point ! j))))))
   \<and> sorted_wrt (<) (map split_cw (project_items K self point))
   \<and> (\<forall>item \<in> set (project_items K self point).
         split_cw item < length (this_drawCommandWrappers self)
         \<and> wrapper_project K (this_drawCommandWrappers self ! split_cw item) point
             = Some (projection item))
   \<and> (\<forall>j<length (this_drawCommandWrappers self). \<forall>q.
         wrapper_project K (this_drawCommandWrappers self ! j) point = Some q \<longrightarrow>
         \<lparr>projection = q, split_cw = j\<rparr> \<in> set (project_items K self point))
   \<and> ((\<exists>i<length (this_drawCommandWrappers self).
          wrapper_project K (this_drawCommandWrappers self ! i) point \<noteq> None) \<longrightarrow>
        (\<exists>k<length (this_drawCommandWrappers self). \<exists>p.
           wrapper_project K (this_drawCommandWrappers self ! k) point = Some p
           \<and> project K self point = Some \<lparr>projection = p, split_cw = k\<rparr>
           \<and> (\<forall>j<length (this_drawCommandWrappers self). \<forall>q.
                 wrapper_project K (this_drawCommandWrappers self ! j) point = Some q \<longrightarrow>
                 proj_d p \<le> proj_d q \<and> (k < j \<longrightarrow> proj_d p < proj_d q))))"
proof -
  note items = project_tie_items [of cw K point self]
  have segments: "sourceBeziers cw \<noteq> [] \<longrightarrow>
      (\<exists>k<length (sourceBeziers cw).
         wrapper_project K cw point = Some (bez_project K (sourceBeziers cw ! k) point)
         \<and> (\<forall>j<length (sourceBeziers cw).
               proj_d (bez_project K (sourceBeziers cw ! k) point)
                 \<le> proj_d (bez_project K (sourceBeziers cw ! j) point)
               \<and> (k < j \<longrightarrow> proj_d (bez_project K (sourceBeziers cw ! k) point)
                                < proj_d (bez_project K (sourceBeziers cw ! j) point))))"
    by (rule items [THEN conjunct1])
  have reduce: "project_items K self point \<noteq> [] \<longrightarrow>
      (\<exists>k<length (project_items K self point).
         project K self point = Some (project_items K self point ! k)
         \<and> (\<forall>j<length (project_items K self point).
               proj_d (projection (project_items K self point ! k))
                 \<le> proj_d (projection (project_items K self point ! j))
               \<and> (k < j \<longrightarrow> proj_d (projection (project_items K self point ! k))
                                < proj_d (projection (project_items K self point ! j)))))"
    by (rule items [THEN conjunct2, THEN conjunct1])
  have ordered: "sorted_wrt (<) (map split_cw (project_items K self point))"
    by (rule project_items_sorted)
  have sound: "\<forall>item \<in> set (project_items K self point).
         split_cw item < length (this_drawCommandWrappers self)
         \<and> wrapper_project K (this_drawCommandWrappers self ! split_cw item) point
             = Some (projection item)"
    by (rule items [THEN conjunct2, THEN conjunct2, THEN conjunct2])
  have complete: "\<forall>j<length (this_drawCommandWrappers self). \<forall>q.
         wrapper_project K (this_drawCommandWrappers self ! j) point = Some q \<longrightarrow>
         \<lparr>projection = q, split_cw = j\<rparr> \<in> set (project_items K self point)"
    by (intro allI impI) (rule project_items_complete)
  have wrappers: "(\<exists>i<length (this_drawCommandWrappers self).
          wrapper_project K (this_drawCommandWrappers self ! i) point \<noteq> None) \<longrightarrow>
        (\<exists>k<length (this_drawCommandWrappers self). \<exists>p.
           wrapper_project K (this_drawCommandWrappers self ! k) point = Some p
           \<and> project K self point = Some \<lparr>projection = p, split_cw = k\<rparr>
           \<and> (\<forall>j<length (this_drawCommandWrappers self). \<forall>q.
                 wrapper_project K (this_drawCommandWrappers self ! j) point = Some q \<longrightarrow>
                 proj_d p \<le> proj_d q \<and> (k < j \<longrightarrow> proj_d p < proj_d q)))"
    by (rule impI) (rule project_over_wrappers)
  show ?thesis
    by (intro conjI; fact)
qed

lemmas project_defs = project_def project_items_def wrapper_project_def closer_def
  List.map_filter_def enumerate_eq_zip segment_project_def line_kernel_def
  new_DrawCommandWrapper_def

text \<open>The kernel for examples projects (10,0) on the two lines of the corner with distance 0.\<close>

theorem project_tie_keeps_later_witness:
  "sourceBeziers two_segments \<noteq> []
   \<and> project_items (line_kernel []) corner_path (Point 10 0) \<noteq> []
   \<and> (\<exists>k<length (sourceBeziers two_segments).
         wrapper_project (line_kernel []) two_segments (Point 10 0)
           = Some (bez_project (line_kernel []) (sourceBeziers two_segments ! k) (Point 10 0))
         \<and> (\<forall>j<length (sourceBeziers two_segments).
               proj_d (bez_project (line_kernel []) (sourceBeziers two_segments ! k) (Point 10 0))
                 \<le> proj_d (bez_project (line_kernel []) (sourceBeziers two_segments ! j) (Point 10 0))
               \<and> (k < j \<longrightarrow> proj_d (bez_project (line_kernel []) (sourceBeziers two_segments ! k) (Point 10 0))
                                < proj_d (bez_project (line_kernel []) (sourceBeziers two_segments ! j) (Point 10 0)))))
   \<and> (\<exists>k<length (project_items (line_kernel []) corner_path (Point 10 0)).
         project (line_kernel []) corner_path (Point 10 0)
           = Some (project_items (line_kernel []) corner_path (Point 10 0) ! k)
         \<and> (\<forall>j<length (project_items (line_kernel []) corner_path (Point 10 0)).
               proj_d (projection (project_items (line_kernel []) corner_path (Point 10 0) ! k))
                 \<le> proj_d (projection (project_items (line_kernel []) corner_path (Point 10 0) ! j))
               \<and> (k < j \<longrightarrow> proj_d (projection (project_items (line_kernel []) corner_path (Point 10 0) ! k))
                                < proj_d (projection (project_items (line_kernel []) corner_path (Point 10 0) ! j)))))
   \<and> 1 < length (this_drawCommandWrappers corner_path)
   \<and> wrapper_project (line_kernel []) (this_drawCommandWrappers corner_path ! 1) (Point 10 0)
       = Some (Projection (Point 10 0) 1 0)
   \<and> \<lparr>projection = Projection (Point 10 0) 1 0, split_cw = 1\<rparr>
       \<in> set (project_items (line_kernel []) corner_path (Point 10 0))
   \<and> (\<exists>i<length (this_drawCommandWrappers corner_path).
         wrapper_project (line_kernel []) (this_drawCommandWrappers corner_path ! i) (Point 10 0) \<noteq> None)
   \<and> (\<exists>k<length (this_drawCommandWrappers corner_path). \<exists>p.
         wrapper_project (line_kernel []) (this_drawCommandWrappers corner_path ! k) (Point 10 0) = Some p
         \<and> project (line_kernel []) corner_path (Point 10 0) = Some \<lparr>projection = p, split_cw = k\<rparr>
         \<and> (\<forall>j<length (this_drawCommandWrappers corner_path). \<forall>q.
               wrapper_project (line_kernel []) (this_drawCommandWrappers corner_path ! j) (Point 10 0) = Some q \<longrightarrow>
               proj_d p \<le> proj_d q \<and> (k < j \<longrightarrow> proj_d p < proj_d q)))"
proof -
  note inst = project_tie_keeps_later [of two_segments "line_kernel []" "Point 10 0" corner_path]
  have a: "sourceBeziers two_segments \<noteq> []"
    by (simp add: two_segments_def new_DrawCommandWrapper_def)
  have b: "project_items (line_kernel []) corner_path (Point 10 0) \<noteq> []"
    by (simp add: project_defs corner_path_def)
  have c: "1 < length (this_drawCommandWrappers corner_path)"
    by (simp add: corner_path_def)
  have d: "wrapper_project (line_kernel []) (this_drawCommandWrappers corner_path ! 1) (Point 10 0)
       = Some (Projection (Point 10 0) 1 0)"
    by (simp add: project_defs corner_path_def)
  from c d have e: "\<exists>i<length (this_drawCommandWrappers corner_path).
         wrapper_project (line_kernel []) (this_drawCommandWrappers corner_path ! i) (Point 10 0) \<noteq> None"
    by (intro exI [of _ 1]) simp
  from a inst [THEN conjunct1] have r1: "\<exists>k<length (sourceBeziers two_segments).
         wrapper_project (line_kernel []) two_segments (Point 10 0)
           = Some (bez_project (line_kernel []) (sourceBeziers two_segments ! k) (Point 10 0))
         \<and> (\<forall>j<length (sourceBeziers two_segments).
               proj_d (bez_project (line_kernel []) (sourceBeziers two_segments ! k) (Point 10 0))
                 \<le> proj_d (bez_project (line_kernel []) (sourceBeziers two_segments ! j) (Point 10 0))
               \<and> (k < j \<longrightarrow> proj_d (bez_project (line_kernel []) (sourceBeziers two_segments ! k) (Point 10 0))
                                < proj_d (bez_project (line_kernel []) (sourceBeziers two_segments ! j) (Point 10 0))))"
    by (rule rev_mp)
  from b inst [THEN conjunct2, THEN conjunct1] have r2:
      "\<exists>k<length (project_items (line_kernel []) corner_path (Point 10 0)).
         project (line_kernel []) corner_path (Point 10 0)
           = Some (project_items (line_kernel []) corner_path (Point 10 0) ! k)
         \<and> (\<forall>j<length (project_items (line_kernel []) corner_path (Point 10 0)).
               proj_d (projection (project_items (line_kernel []) corner_path (Point 10 0) ! k))
                 \<le> proj_d (projection (project_items (line_kernel []) corner_path (Point 10 0) ! j))
               \<and> (k < j \<longrightarrow> proj_d (projection (project_items (line_kernel []) corner_path (Point 10 0) ! k))
                                < proj_d (projection (project_items (line_kernel []) corner_path (Point 10 0) ! j))))"
    by (rule rev_mp)
  from inst [THEN conjunct2, THEN conjunct2, THEN conjunct2, THEN conjunct2, THEN conjunct1] c d
  have r3: "\<lparr>projection = Projection (Point 10 0) 1 0, split_cw = 1\<rparr>
       \<in> set (project_items (line_kernel []) corner_path (Point 10 0))"
    by blast
  from e inst [THEN conjunct2, THEN conjunct2, THEN conjunct2, THEN conjunct2, THEN conjunct2]
  have r4: "\<exists>k<length (this_drawCommandWrappers corner_path). \<exists>p.
         wrapper_project (line_kernel []) (this_drawCommandWrappers corner_path ! k) (Point 10 0) = Some p
         \<and> project (line_kernel []) corner_path (Point 10 0) = Some \<lparr>projection = p, split_cw = k\<rparr>
         \<and> (\<forall>j<length (this_drawCommandWrappers corner_path). \<forall>q.
               wrapper_project (line_kernel []) (this_drawCommandWrappers corner_path ! j) (Point 10 0) = Some q \<longrightarrow>
               proj_d p \<le> proj_d q \<and> (k < j \<longrightarrow> proj_d p < proj_d q))"
    by (rule rev_mp)
  show ?thesis
    by (intro conjI; fact)
qed

text \<open>
  For M 0,0 L 10,0 L 10,10 and the point (10,0) the wrappers of both lines project with
  distance 0; project returns the item of the second line. In a wrapper with both
  segments it is the projection on the second segment.
\<close>

theorem project_tie_counterexample:
  "build corner_example = Inr (corner_store, corner_path)
   \<and> wrapper_project (line_kernel []) (this_drawCommandWrappers corner_path ! 1) (Point 10 0)
     = Some (Projection (Point 10 0) 1 0)
   \<and> wrapper_project (line_kernel []) (this_drawCommandWrappers corner_path ! 2) (Point 10 0)
     = Some (Projection (Point 10 0) 0 0)
   \<and> project (line_kernel []) corner_path (Point 10 0)
     = Some \<lparr>projection = Projection (Point 10 0) 0 0, split_cw = 2\<rparr>
   \<and> wrapper_project (line_kernel []) two_segments (Point 10 0)
     = Some (bez_project (line_kernel []) (sourceBeziers two_segments ! 1) (Point 10 0))
   \<and> proj_d (bez_project (line_kernel []) (sourceBeziers two_segments ! 0) (Point 10 0))
     = proj_d (bez_project (line_kernel []) (sourceBeziers two_segments ! 1) (Point 10 0))
   \<and> bez_project (line_kernel []) (sourceBeziers two_segments ! 0) (Point 10 0)
     \<noteq> bez_project (line_kernel []) (sourceBeziers two_segments ! 1) (Point 10 0)"
  by (simp add: build_corner_example) (simp add: project_defs corner_path_def two_segments_def)



section \<open>Properties of split\<close>

text \<open>
  C6, as the code has it: split first returns, changing nothing, when the wrapper has no
  Bezier segments, whatever its source command is; a wrapper of an EllipticalArc with
  at least one segment makes split raise the Error for elliptical arcs.
\<close>

theorem split_arc_rejected_after_empty_check:
  "(sourceBeziers cw = [] \<longrightarrow> wrapper_split K st cw t = Inr (st, cw))
   \<and> (sourceBeziers cw \<noteq> [] \<and> constructor_of (objs st (sourceCommand cw)) = EllipticalArc \<longrightarrow>
        wrapper_split K st cw t = Inl (Error ''TODO: implement split support for elliptical arcs''))"
  by (simp add: wrapper_split_def)

theorem split_arc_rejected_after_empty_check_witness:
  "sourceBeziers (this_drawCommandWrappers arcs_path ! 0) = []
   \<and> wrapper_split (line_kernel []) arcs_store (this_drawCommandWrappers arcs_path ! 0) (1 / 2)
       = Inr (arcs_store, this_drawCommandWrappers arcs_path ! 0)
   \<and> sourceBeziers (this_drawCommandWrappers arcs_path ! 2) \<noteq> []
   \<and> constructor_of (objs arcs_store (sourceCommand (this_drawCommandWrappers arcs_path ! 2)))
       = EllipticalArc
   \<and> wrapper_split (line_kernel []) arcs_store (this_drawCommandWrappers arcs_path ! 2) (1 / 2)
       = Inl (Error ''TODO: implement split support for elliptical arcs'')"
proof -
  have e: "sourceBeziers (this_drawCommandWrappers arcs_path ! 0) = []"
    and n: "sourceBeziers (this_drawCommandWrappers arcs_path ! 2) \<noteq> []"
    and a: "constructor_of (objs arcs_store (sourceCommand (this_drawCommandWrappers arcs_path ! 2)))
              = EllipticalArc"
    by (simp_all add: arcs_path_def arcs_store_def new_DrawCommandWrapper_def)
  from e n a
    split_arc_rejected_after_empty_check
      [of "this_drawCommandWrappers arcs_path ! 0" "line_kernel []" arcs_store "1 / 2"]
    split_arc_rejected_after_empty_check
      [of "this_drawCommandWrappers arcs_path ! 2" "line_kernel []" arcs_store "1 / 2"]
  show ?thesis by blast
qed

text \<open>
  In the path built from \<open>arcs_example\<close> the wrapper of the arc whose end is its start
  has no segment: split on it returns without an error, and nothing has changed.
\<close>

theorem split_arc_without_segments_returns:
  "build arcs_example = Inr (arcs_store, arcs_path)
   \<and> constructor_of (objs arcs_store (sourceCommand (this_drawCommandWrappers arcs_path ! 1)))
     = EllipticalArc
   \<and> wrapper_split (line_kernel []) arcs_store (this_drawCommandWrappers arcs_path ! 1) (1 / 2)
       = Inr (arcs_store, this_drawCommandWrappers arcs_path ! 1)"
  by (simp add: build_arcs_example)
     (simp add: arcs_path_def arcs_store_def wrapper_split_def new_DrawCommandWrapper_def)

section \<open>Properties of split and delete\<close>

lemmas split_defs =
  call_split_def wrapper_split_def sortedIndex_def splice_insert_def splice_remove_def
  rebuildSplitCommands_def bezierToDrawCommand_def bez_start_def bez_end_def bez_cp1_def
  bez_cp2_def bez_point_def segment_point_def onDeleteCommandClick_def toString_def
  rebuildInternalState_def drawCommands_def wrapper_commands_def createSubPathCommands_def
  group_step_def Let_def alloc_def

text \<open>
  For any kernel: the closure \<open>split\<close> leaves the groups and the string of the commands
  of the wrappers; the closure \<open>onDeleteCommandClick\<close> leaves the groups of these
  commands and the string that the path had before.
\<close>

lemma call_split_rebuilds:
  assumes "call_split K info (st, self) = Inr (st', self')"
  shows "this_commands self' = createSubPathCommands (objs st') (drawCommands self')
         \<and> this_path self' = commandsToString K (map (objs st') (drawCommands self'))"
  using assms
  by (auto simp: call_split_def rebuildInternalState_def drawCommands_def Let_def
           split: if_splits sum.splits)

lemma onDeleteCommandClick_rebuilds:
  assumes "onDeleteCommandClick K w i (st, self) = Inr (st', self')"
  shows "this_commands self' = createSubPathCommands (objs st') (drawCommands self')
         \<and> this_path self' = this_path self"
  using assms
  by (auto simp: onDeleteCommandClick_def rebuildInternalState_def drawCommands_def Let_def
           split: if_splits sum.splits)

text \<open>
  C2: M 0,0 L 10,0 is split at the projection of (5,5), then the split is deleted. After
  the split the string is regenerated from the three commands. After the delete the
  command view is rebuilt and holds the two original commands, but the string is the
  one of the split, not the string of these two commands.
\<close>

theorem delete_split_keeps_stale_string:
  "build line_example = Inr (line_store, line_path)
   \<and> (case project (line_kernel []) line_path (Point 5 5) of
      None \<Rightarrow> Inl TypeError
    | Some info \<Rightarrow>
        (case call_split (line_kernel []) info (line_store, line_path) of
           Inl e \<Rightarrow> Inl e
         | Inr ss1 \<Rightarrow>
             (case onDeleteCommandClick (line_kernel []) 1 0 ss1 of
                Inl e \<Rightarrow> Inl e
              | Inr ss2 \<Rightarrow>
                  Inr (map (objs (fst ss1)) (drawCommands (snd ss1)),
                       toString (snd ss1),
                       map (objs (fst ss2)) (drawCommands (snd ss2)),
                       toString (snd ss2),
                       commandsToString (line_kernel [])
                         (map (objs (fst ss2)) (drawCommands (snd ss2)))))))
   = Inr ([MoveCommand [None, Some (Point 0 0)],
           LineCommand [Some (Point 0 0), Some (Point 5 0)],
           LineCommand [Some (Point 5 0), Some (Point 10 0)]],
          ''MLL'',
          [MoveCommand [None, Some (Point 0 0)],
           LineCommand [Some (Point 0 0), Some (Point 10 0)]],
          ''MLL'',
          ''ML'')"
  by (simp add: build_line_example)
     (simp add: line_path_def line_store_def project_defs split_defs)


section \<open>Properties of interpolate\<close>

lemmas morph_defs = morph_store_def morph_self_def morph_start_def morph_end_def morph_line_def
  isMorphableWith_def enumerate_eq_zip new_DrawCommandWrapper_def

lemma morph_self_start: "isMorphableWith (objs morph_store) morph_self morph_start"
  by (simp add: morph_defs)

lemma morph_self_end: "isMorphableWith (objs morph_store) morph_self morph_end"
  by (simp add: morph_defs)

lemma morph_self_line: "\<not> isMorphableWith (objs morph_store) morph_self morph_line"
  by (simp add: morph_defs)

lemma morph_self_consistent:
  "this_commands morph_self = createSubPathCommands (objs morph_store) (drawCommands morph_self)"
  by (simp add: morph_defs drawCommands_def wrapper_commands_def createSubPathCommands_def
        group_step_def Let_def)

text \<open>
  C7: when this path is not morphable with the start path or not morphable with the end
  path, interpolate returns at once: the store and the path data are what they were,
  and no error is raised.
\<close>

theorem interpolate_not_morphable:
  "\<not> isMorphableWith (objs st) self start \<or> \<not> isMorphableWith (objs st) self endp \<Longrightarrow>
     interpolate K st self start endp fraction = Inr (st, self)"
  by (simp add: interpolate_def)

theorem interpolate_not_morphable_witness:
  "\<not> isMorphableWith (objs morph_store) morph_self morph_line
   \<and> interpolate (line_kernel []) morph_store morph_self morph_line morph_end (1 / 2)
       = Inr (morph_store, morph_self)"
  using morph_self_line
    interpolate_not_morphable [of morph_store morph_self morph_line morph_end "line_kernel []" "1 / 2"]
  by blast

lemma same_shape_refl: "same_shape h h"
  by (simp add: same_shape_def)

lemma args_of_Some: "constructor_of c = EllipticalArc \<Longrightarrow> \<exists>a. args_of c = Some a"
  by (cases c) simp_all

lemma args_of_None: "constructor_of c \<noteq> EllipticalArc \<Longrightarrow> args_of c = None"
  by (cases c) simp_all

lemma set_args_shape:
  "constructor_of (set_args c a) = constructor_of c \<and> points (set_args c a) = points c"
  by (cases c) simp_all

lemma set_points_shape:
  "constructor_of (set_points c ps) = constructor_of c \<and> points (set_points c ps) = ps"
  by (cases c) simp_all

lemma length_array_set: "i < length xs \<Longrightarrow> length (array_set xs i v) = length xs"
  by (simp add: array_set_def)

lemma list_all_enumerate:
  "list_all P (enumerate 0 xs) \<longleftrightarrow> (\<forall>i<length xs. P (i, xs ! i))"
  by (simp add: list_all_length nth_enumerate_eq)

lemma isMorphableWith_iff:
  "isMorphableWith h self cmd \<longleftrightarrow>
     length (this_commands self) = length (this_commands cmd)
     \<and> (\<forall>i<length (this_commands self).
          length (commands (this_commands self ! i)) = length (commands (this_commands cmd ! i))
          \<and> (\<forall>j<length (commands (this_commands self ! i)).
                constructor_of (h (commands (this_commands self ! i) ! j))
                  = constructor_of (h (commands (this_commands cmd ! i) ! j))
                \<and> length (points (h (commands (this_commands self ! i) ! j)))
                  = length (points (h (commands (this_commands cmd ! i) ! j)))))"
  by (simp add: isMorphableWith_def list_all_enumerate)

lemma isMorphableWith_same_shape:
  "same_shape h h' \<Longrightarrow> this_commands self' = this_commands self \<Longrightarrow>
     isMorphableWith h' self' cmd = isMorphableWith h self cmd"
  by (simp add: isMorphableWith_iff same_shape_def)

lemma createSubPathCommands_same_shape:
  assumes "same_shape h h'"
  shows "createSubPathCommands h' cs = createSubPathCommands h cs"
proof -
  have "group_step h' = group_step h"
    using assms by (auto simp: fun_eq_iff group_step_def same_shape_def)
  then show ?thesis by (simp add: createSubPathCommands_def)
qed

lemma nth_in_flatten:
  "i < length subs \<Longrightarrow> j < length (commands (subs ! i)) \<Longrightarrow>
     commands (subs ! i) ! j \<in> set (flatten subs)"
  by (auto simp: flatten_def) (metis nth_mem)

lemma values_changed_refl: "values_changed S h h"
  by (simp add: values_changed_def same_shape_refl)

lemma values_changed_trans:
  "values_changed S h h1 \<Longrightarrow> values_changed S' h1 h2 \<Longrightarrow> S' \<subseteq> S \<Longrightarrow> values_changed S h h2"
  unfolding values_changed_def same_shape_def by (metis subsetD)

lemma arc_arg_step_changes:
  assumes "constructor_of (h d) = EllipticalArc" "constructor_of (h d1) = EllipticalArc"
    "constructor_of (h d2) = EllipticalArc"
  shows "\<exists>h'. arc_arg_step K fraction d d1 d2 i h = Inr h' \<and> values_changed {d} h h'"
proof -
  from assms obtain a a1 a2 where "args_of (h d) = Some a" "args_of (h d1) = Some a1"
    "args_of (h d2) = Some a2"
    by (meson args_of_Some)
  then show ?thesis
    by (simp add: arc_arg_step_def values_changed_def same_shape_def set_args_shape)
qed

lemma point_step_changes:
  assumes "i < length (points (h d))" "constructor_of (h d) \<noteq> EllipticalArc"
  shows "values_changed {d} h (point_step K fraction d d1 d2 i h)"
  using assms
  by (auto simp: point_step_def values_changed_def same_shape_def set_points_shape length_array_set
           split: option.splits)

lemma interpolate_command_changes:
  assumes k1: "constructor_of (h d1) = constructor_of (h d)"
    and k2: "constructor_of (h d2) = constructor_of (h d)"
    and l1: "length (points (h d1)) = length (points (h d))"
  shows "\<exists>h'. interpolate_command K fraction d d1 d2 h = Inr h' \<and> values_changed {d} h h'"
proof (cases "constructor_of (h d) = EllipticalArc")
  case True
  have "\<exists>h'. forEach (arc_arg_step K fraction d d1 d2) [0..<args_length] h = Inr h'
          \<and> values_changed {d} h h'"
  proof (rule forEach_invariant [where I = "values_changed {d} h"])
    show "values_changed {d} h h" by (rule values_changed_refl)
  next
    fix i g assume g: "values_changed {d} h g"
    with True k1 k2 have "constructor_of (g d) = EllipticalArc" "constructor_of (g d1) = EllipticalArc"
      "constructor_of (g d2) = EllipticalArc"
      by (simp_all add: values_changed_def same_shape_def)
    from arc_arg_step_changes [where h=g and d=d, OF this] obtain g' where
      "arc_arg_step K fraction d d1 d2 i g = Inr g'" "values_changed {d} g g'"
      by blast
    with g show "\<exists>s'. arc_arg_step K fraction d d1 d2 i g = Inr s' \<and> values_changed {d} h s'"
      by (blast intro: values_changed_trans)
  qed
  with True show ?thesis by (simp add: interpolate_command_def)
next
  case False
  have "values_changed {d} h (fold (point_step K fraction d d1 d2) [0..<length (points (h d1))] h)"
  proof (rule fold_invariant [where Q = "\<lambda>i. i < length (points (h d1))"
        and P = "values_changed {d} h"])
    show "values_changed {d} h h" by (rule values_changed_refl)
  next
    fix i assume "i \<in> set [0..<length (points (h d1))]"
    then show "i < length (points (h d1))" by simp
  next
    fix i g assume i: "i < length (points (h d1))" and g: "values_changed {d} h g"
    with l1 False have "i < length (points (g d))" "constructor_of (g d) \<noteq> EllipticalArc"
      by (simp_all add: values_changed_def same_shape_def)
    from point_step_changes [where h=g and d=d, OF this] g
    show "values_changed {d} h (point_step K fraction d d1 d2 i g)"
      by (blast intro: values_changed_trans)
  qed
  with False show ?thesis by (simp add: interpolate_command_def)
qed

lemma interpolate_loops_change:
  assumes ms: "isMorphableWith h self start" and me: "isMorphableWith h self endp"
  shows "\<exists>h'. forEach (interpolate_subpath K fraction start endp)
                  (enumerate 0 (this_commands self)) h = Inr h'
           \<and> values_changed (set (flatten (this_commands self))) h h'"
proof (rule forEach_invariant [where I = "values_changed (set (flatten (this_commands self))) h"])
  show "values_changed (set (flatten (this_commands self))) h h" by (rule values_changed_refl)
next
  let ?S = "set (flatten (this_commands self))"
  fix isub g assume isub: "isub \<in> set (enumerate 0 (this_commands self))"
    and g: "values_changed ?S h g"
  then have i: "fst isub < length (this_commands self)"
    and s: "snd isub = this_commands self ! fst isub"
    by (auto simp: in_set_enumerate_eq)
  have "\<exists>g'. forEach (\<lambda>jd. interpolate_command K fraction (snd jd)
                      (commands (this_commands start ! fst isub) ! fst jd)
                      (commands (this_commands endp ! fst isub) ! fst jd))
       (enumerate 0 (commands (snd isub))) g = Inr g' \<and> values_changed ?S h g'"
  proof (rule forEach_invariant [where I = "values_changed ?S h"])
    show "values_changed ?S h g" by (rule g)
  next
    fix jd k assume jd: "jd \<in> set (enumerate 0 (commands (snd isub)))"
      and k: "values_changed ?S h k"
    then have j: "fst jd < length (commands (this_commands self ! fst isub))"
      and d: "snd jd = commands (this_commands self ! fst isub) ! fst jd"
      using s by (auto simp: in_set_enumerate_eq)
    let ?d1 = "commands (this_commands start ! fst isub) ! fst jd"
    let ?d2 = "commands (this_commands endp ! fst isub) ! fst jd"
    from ms me i j d have
      "constructor_of (h ?d1) = constructor_of (h (snd jd))"
      "constructor_of (h ?d2) = constructor_of (h (snd jd))"
      "length (points (h ?d1)) = length (points (h (snd jd)))"
      by (simp_all add: isMorphableWith_iff)
    with k have
      "constructor_of (k ?d1) = constructor_of (k (snd jd))"
      "constructor_of (k ?d2) = constructor_of (k (snd jd))"
      "length (points (k ?d1)) = length (points (k (snd jd)))"
      by (simp_all add: values_changed_def same_shape_def)
    from interpolate_command_changes [where h=k and d="snd jd", OF this] obtain k' where
      k': "interpolate_command K fraction (snd jd) ?d1 ?d2 k = Inr k'"
        "values_changed {snd jd} k k'"
      by blast
    have "{snd jd} \<subseteq> ?S"
      using nth_in_flatten [OF i j] d by simp
    with k k' show "\<exists>s'. interpolate_command K fraction (snd jd) ?d1 ?d2 k = Inr s'
        \<and> values_changed ?S h s'"
      by (blast intro: values_changed_trans)
  qed
  then show "\<exists>s'. interpolate_subpath K fraction start endp isub g = Inr s'
      \<and> values_changed ?S h s'"
    by (simp add: interpolate_subpath_def)
qed

text \<open>
  C9, as the code has it: when this path is morphable with the start and with the end
  path (and its groups are those of its wrappers' commands, as after every operation of
  the class), interpolate returns, the sub-path groups and the wrappers hold the same
  commands as before, every command of the store has kept its variant and its number
  of points, and the path is still morphable with the start and with the end path. Only
  values change, and only in commands of this path: a command of no group is unchanged,
  and an arc keeps its points (its args are assigned, the two flags among them).
\<close>

theorem interpolate_keeps_topology:
  assumes ms: "isMorphableWith (objs st) self start" and me: "isMorphableWith (objs st) self endp"
    and cons: "this_commands self = createSubPathCommands (objs st) (drawCommands self)"
  shows "\<exists>st' self'. interpolate K st self start endp fraction = Inr (st', self')
           \<and> this_commands self' = this_commands self
           \<and> this_drawCommandWrappers self' = this_drawCommandWrappers self
           \<and> (\<forall>r. constructor_of (objs st' r) = constructor_of (objs st r)
                   \<and> length (points (objs st' r)) = length (points (objs st r)))
           \<and> (\<forall>r. r \<notin> set (flatten (this_commands self)) \<longrightarrow> objs st' r = objs st r)
           \<and> (\<forall>r. constructor_of (objs st r) = EllipticalArc \<longrightarrow>
                   points (objs st' r) = points (objs st r))
           \<and> isMorphableWith (objs st') self' start
           \<and> isMorphableWith (objs st') self' endp"
proof -
  from interpolate_loops_change [OF ms me] obtain h' where
    run: "forEach (interpolate_subpath K fraction start endp)
            (enumerate 0 (this_commands self)) (objs st) = Inr h'"
    and ch: "values_changed (set (flatten (this_commands self))) (objs st) h'"
    by blast
  from ch have sh: "same_shape (objs st) h'" by (simp add: values_changed_def)
  let ?self' = "rebuildInternalState K h' False self"
  have res: "interpolate K st self start endp fraction = Inr (st\<lparr>objs := h'\<rparr>, ?self')"
    using ms me run by (simp add: interpolate_def)
  have cmds: "this_commands ?self' = this_commands self"
    using cons createSubPathCommands_same_shape [OF sh]
    by (simp add: rebuildInternalState_def)
  have ws: "this_drawCommandWrappers ?self' = this_drawCommandWrappers self"
    by (simp add: rebuildInternalState_def)
  from ms me isMorphableWith_same_shape [OF sh cmds]
  have "isMorphableWith h' ?self' start" "isMorphableWith h' ?self' endp"
    by simp_all
  with res cmds ws ch show ?thesis
    by (simp add: values_changed_def same_shape_def)
qed


theorem interpolate_keeps_topology_witness:
  "isMorphableWith (objs morph_store) morph_self morph_start
   \<and> isMorphableWith (objs morph_store) morph_self morph_end
   \<and> this_commands morph_self = createSubPathCommands (objs morph_store) (drawCommands morph_self)
   \<and> (\<exists>st' self'. interpolate (line_kernel []) morph_store morph_self morph_start morph_end (1 / 2)
                      = Inr (st', self')
           \<and> this_commands self' = this_commands morph_self
           \<and> this_drawCommandWrappers self' = this_drawCommandWrappers morph_self
           \<and> (\<forall>r. constructor_of (objs st' r) = constructor_of (objs morph_store r)
                   \<and> length (points (objs st' r)) = length (points (objs morph_store r)))
           \<and> (\<forall>r. r \<notin> set (flatten (this_commands morph_self)) \<longrightarrow> objs st' r = objs morph_store r)
           \<and> (\<forall>r. constructor_of (objs morph_store r) = EllipticalArc \<longrightarrow>
                   points (objs st' r) = points (objs morph_store r))
           \<and> isMorphableWith (objs st') self' morph_start
           \<and> isMorphableWith (objs st') self' morph_end)"
  using morph_self_start morph_self_end morph_self_consistent
    interpolate_keeps_topology [OF morph_self_start morph_self_end morph_self_consistent,
      of "line_kernel []" "1 / 2"]
  by blast

lemma interpolate_morphable:
  "isMorphableWith (objs st) self start \<Longrightarrow> isMorphableWith (objs st) self endp \<Longrightarrow>
   interpolate K st self start endp fraction =
     (case forEach (interpolate_subpath K fraction start endp)
                  (enumerate 0 (this_commands self)) (objs st) of
             Inl e \<Rightarrow> Inl e
           | Inr h' \<Rightarrow> Inr (st\<lparr>objs := h'\<rparr>, rebuildInternalState K h' False self))"
  by (simp add: interpolate_def)

lemmas interp_defs =
  interpolate_subpath_def interpolate_command_def arc_arg_step_def point_step_def
  array_set_def point_at_def args_length_def rebuildInternalState_def drawCommands_def
  wrapper_commands_def createSubPathCommands_def group_step_def Let_def

text \<open>
  The arc of \<open>morph_self\<close> has the large-arc flag 0, the arc of \<open>morph_start\<close> has 1:
  interpolate with the fraction 0 sets the flag of the arc of \<open>morph_self\<close> to 1.
\<close>

theorem interpolate_assigns_flags:
  "(case build arc_self_example of Inl e \<Rightarrow> Inl e | Inr s1 \<Rightarrow>
    (case build_in (fst s1) arc_start_example of Inl e \<Rightarrow> Inl e | Inr s2 \<Rightarrow>
    (case build_in (fst s2) arc_end_example of Inl e \<Rightarrow> Inl e | Inr s3 \<Rightarrow>
    (case build_in (fst s3) line_example of Inl e \<Rightarrow> Inl e | Inr s4 \<Rightarrow>
       Inr (fst s4, snd s1, snd s2, snd s3, snd s4)))))
    = Inr (morph_store, morph_self, morph_start, morph_end, morph_line)
   \<and> isMorphableWith (objs morph_store) morph_self morph_start
   \<and> isMorphableWith (objs morph_store) morph_self morph_end
   \<and> objs morph_store 1
       = EllipticalArcCommand [Some (Point 0 0), Some (Point 2 0)] (ArcArgs 0 0 1 1 0 0 0 2 0)
   \<and> map_sum id (\<lambda>ss. objs (fst ss) 1)
        (interpolate (line_kernel []) morph_store morph_self morph_start morph_end 0)
       = Inr (EllipticalArcCommand [Some (Point 0 0), Some (Point 2 0)] (ArcArgs 0 0 2 2 0 1 0 4 0))
   \<and> arg_nth (ArcArgs 0 0 1 1 0 0 0 2 0) 5 \<noteq> arg_nth (ArcArgs 0 0 2 2 0 1 0 4 0) 5"
proof -
  have "map_sum id (\<lambda>ss. objs (fst ss) 1)
        (interpolate (line_kernel []) morph_store morph_self morph_start morph_end 0)
       = Inr (EllipticalArcCommand [Some (Point 0 0), Some (Point 2 0)] (ArcArgs 0 0 2 2 0 1 0 4 0))"
    unfolding interpolate_morphable [OF morph_self_start morph_self_end]
    by (simp add: interp_defs morph_defs line_kernel_def numeral_eq_Suc)
  moreover have "objs morph_store 1
       = EllipticalArcCommand [Some (Point 0 0), Some (Point 2 0)] (ArcArgs 0 0 1 1 0 0 0 2 0)"
    by (simp add: morph_store_def)
  ultimately show ?thesis
    using morph_self_start morph_self_end build_morph_examples by simp
qed

lemma interpolate_loops_flat:
  "forEach (interpolate_subpath K fraction start endp) (enumerate 0 (this_commands self)) h =
   forEach (\<lambda>t. interpolate_command K fraction (fst t) (fst (snd t)) (snd (snd t)))
     (command_triples self start endp) h"
proof -
  have "interpolate_subpath K fraction start endp =
      (\<lambda>isub. forEach (\<lambda>t. interpolate_command K fraction (fst t) (fst (snd t)) (snd (snd t)))
         (map (\<lambda>jd. (snd jd,
                      commands (this_commands start ! fst isub) ! fst jd,
                      commands (this_commands endp ! fst isub) ! fst jd))
            (enumerate 0 (commands (snd isub)))))"
    by (intro ext) (simp add: interpolate_subpath_def forEach_map)
  then show ?thesis
    by (simp add: command_triples_def forEach_concat forEach_map)
qed

lemma set_args_same: "args_of c = Some a \<Longrightarrow> set_args c a = c"
  by (cases c) simp_all

lemma set_args_twice: "set_args (set_args c a) b = set_args c b"
  by (cases c) simp_all

lemma args_of_set_args: "args_of c = Some a \<Longrightarrow> args_of (set_args c b) = Some b"
  by (cases c) simp_all

lemma set_points_same: "set_points c (points c) = c"
  by (cases c) simp_all

lemma set_points_twice: "set_points (set_points c ps) qs = set_points c qs"
  by (cases c) simp_all

lemma arc_loop_value:
  assumes d: "d \<noteq> d1" "d \<noteq> d2"
    and a: "args_of (h d) = Some a" "args_of (h d1) = Some a1" "args_of (h d2) = Some a2"
  shows "forEach (arc_arg_step K fraction d d1 d2) [0..<n] h =
         Inr (h(d := set_args (h d) (fold (interpolated_args K fraction a1 a2) [0..<n] a)))"
proof (induction n)
  case 0
  from a(1) show ?case by (simp add: set_args_same)
next
  case (Suc n)
  let ?A = "fold (interpolated_args K fraction a1 a2) [0..<n] a"
  let ?g = "h(d := set_args (h d) ?A)"
  have "arc_arg_step K fraction d d1 d2 n ?g =
        Inr (h(d := set_args (h d) (interpolated_args K fraction a1 a2 n ?A)))"
    using d a
    by (simp add: arc_arg_step_def args_of_set_args set_args_twice interpolated_args_def)
  then have "forEach (arc_arg_step K fraction d d1 d2) [n] ?g =
        Inr (h(d := set_args (h d) (interpolated_args K fraction a1 a2 n ?A)))"
    by simp
  moreover have "forEach (arc_arg_step K fraction d d1 d2) [0..<Suc n] h =
        forEach (arc_arg_step K fraction d d1 d2) [n] ?g"
    by (simp only: upt_Suc_append [OF le0] forEach_append Suc sum.case)
  ultimately show ?case by (simp add: fun_upd_def)
qed

lemma point_loop_value:
  assumes d: "d \<noteq> d1" "d \<noteq> d2"
  shows "fold (point_step K fraction d d1 d2) [0..<n] h =
         h(d := set_points (h d) (fold (interpolated_points K fraction (h d1) (h d2)) [0..<n] (points (h d))))"
proof (induction n)
  case 0
  show ?case by (simp add: set_points_same)
next
  case (Suc n)
  let ?ps = "fold (interpolated_points K fraction (h d1) (h d2)) [0..<n] (points (h d))"
  let ?g = "h(d := set_points (h d) ?ps)"
  have "point_step K fraction d d1 d2 n ?g =
        h(d := set_points (h d) (interpolated_points K fraction (h d1) (h d2) n ?ps))"
    using d
    by (auto simp: point_step_def interpolated_points_def set_points_twice set_points_shape
             split: option.splits)
  moreover have "fold (point_step K fraction d d1 d2) [0..<Suc n] h =
        point_step K fraction d d1 d2 n ?g"
    by (simp only: upt_Suc_append [OF le0] fold_append fold_simps comp_apply Suc id_apply)
  ultimately show ?case by (simp add: fun_upd_def)
qed

lemma interpolate_command_value:
  assumes d: "d \<noteq> d1" "d \<noteq> d2"
    and k1: "constructor_of (h d1) = constructor_of (h d)"
    and k2: "constructor_of (h d2) = constructor_of (h d)"
  shows "interpolate_command K fraction d d1 d2 h =
         Inr (h(d := interpolated K fraction (h d) (h d1) (h d2)))"
proof (cases "constructor_of (h d) = EllipticalArc")
  case True
  with k1 k2 obtain a a1 a2 where a: "args_of (h d) = Some a" "args_of (h d1) = Some a1"
    "args_of (h d2) = Some a2"
    by (metis args_of_Some)
  from True arc_loop_value [OF d a] a show ?thesis
    by (simp add: interpolate_command_def interpolated_def)
next
  case False
  then have "args_of (h d) = None" by (rule args_of_None)
  with False point_loop_value [OF d] show ?thesis
    by (simp add: interpolate_command_def interpolated_def)
qed

lemma interpolated_shape:
  "constructor_of (interpolated K fraction c c1 c2) = constructor_of c"
  by (simp add: interpolated_def set_args_shape set_points_shape split: option.splits)

lemma flat_traversal:
  assumes "distinct (map fst T)"
    and "\<forall>t\<in>set T. fst (snd t) \<notin> fst ` set T \<and> snd (snd t) \<notin> fst ` set T
           \<and> constructor_of (h (fst (snd t))) = constructor_of (h (fst t))
           \<and> constructor_of (h (snd (snd t))) = constructor_of (h (fst t))"
  shows "\<exists>h'. forEach (\<lambda>t. interpolate_command K fraction (fst t) (fst (snd t)) (snd (snd t))) T h = Inr h'
           \<and> (\<forall>t\<in>set T. h' (fst t) = interpolated K fraction (h (fst t)) (h (fst (snd t))) (h (snd (snd t))))
           \<and> (\<forall>r. r \<notin> fst ` set T \<longrightarrow> h' r = h r)"
  using assms
proof (induction T arbitrary: h)
  case Nil
  then show ?case by simp
next
  case (Cons t T)
  let ?d = "fst t" and ?d1 = "fst (snd t)" and ?d2 = "snd (snd t)"
  let ?h1 = "h(?d := interpolated K fraction (h ?d) (h ?d1) (h ?d2))"
  from Cons.prems(2) have t: "?d \<noteq> ?d1" "?d \<noteq> ?d2"
    "constructor_of (h ?d1) = constructor_of (h ?d)" "constructor_of (h ?d2) = constructor_of (h ?d)"
    by auto
  have step: "interpolate_command K fraction ?d ?d1 ?d2 h = Inr ?h1"
    by (rule interpolate_command_value [OF t])
  have fresh: "?d \<notin> fst ` set T" using Cons.prems(1) by simp
  have same: "?h1 (fst u) = h (fst u) \<and> ?h1 (fst (snd u)) = h (fst (snd u))
      \<and> ?h1 (snd (snd u)) = h (snd (snd u))" if "u \<in> set T" for u
    using that fresh Cons.prems(2) by (auto simp: image_iff)
  have dist': "distinct (map fst T)" using Cons.prems(1) by simp
  have cond': "\<forall>u\<in>set T. fst (snd u) \<notin> fst ` set T \<and> snd (snd u) \<notin> fst ` set T
           \<and> constructor_of (?h1 (fst (snd u))) = constructor_of (?h1 (fst u))
           \<and> constructor_of (?h1 (snd (snd u))) = constructor_of (?h1 (fst u))"
  proof
    fix u assume u: "u \<in> set T"
    with Cons.prems(2) have "fst (snd u) \<notin> fst ` set T \<and> snd (snd u) \<notin> fst ` set T
           \<and> constructor_of (h (fst (snd u))) = constructor_of (h (fst u))
           \<and> constructor_of (h (snd (snd u))) = constructor_of (h (fst u))"
      by auto
    with same [OF u] show "fst (snd u) \<notin> fst ` set T \<and> snd (snd u) \<notin> fst ` set T
           \<and> constructor_of (?h1 (fst (snd u))) = constructor_of (?h1 (fst u))
           \<and> constructor_of (?h1 (snd (snd u))) = constructor_of (?h1 (fst u))"
      by metis
  qed
  from Cons.IH [of ?h1, OF dist' cond'] obtain h' where
    run: "forEach (\<lambda>t. interpolate_command K fraction (fst t) (fst (snd t)) (snd (snd t))) T ?h1 = Inr h'"
    and vals: "\<forall>u\<in>set T. h' (fst u) = interpolated K fraction (?h1 (fst u)) (?h1 (fst (snd u))) (?h1 (snd (snd u)))"
    and frame: "\<forall>r. r \<notin> fst ` set T \<longrightarrow> h' r = ?h1 r"
    by blast
  have "forEach (\<lambda>t. interpolate_command K fraction (fst t) (fst (snd t)) (snd (snd t))) (t # T) h = Inr h'"
    using step run by simp
  moreover have "\<forall>u\<in>set (t # T). h' (fst u) = interpolated K fraction (h (fst u)) (h (fst (snd u))) (h (snd (snd u)))"
  proof
    fix u assume "u \<in> set (t # T)"
    then consider "u = t" | "u \<in> set T" by auto
    then show "h' (fst u) = interpolated K fraction (h (fst u)) (h (fst (snd u))) (h (snd (snd u)))"
    proof cases
      case 1
      with frame fresh show ?thesis by simp
    next
      case 2
      with vals same [OF 2] show ?thesis by metis
    qed
  qed
  moreover have "\<forall>r. r \<notin> fst ` set (t # T) \<longrightarrow> h' r = h r"
    using frame by simp
  ultimately show ?case by blast
qed


lemma map_snd_enumerate_fun: "map (\<lambda>x. f (snd x)) (enumerate n xs) = map f xs"
  by (induction xs arbitrary: n) simp_all

lemma map_fst_command_triples:
  "map fst (command_triples self start endp) = flatten (this_commands self)"
proof -
  have "map fst (command_triples self start endp) =
        concat (map (\<lambda>isub. map (\<lambda>jd. snd jd) (enumerate 0 (commands (snd isub))))
                  (enumerate 0 (this_commands self)))"
    by (simp add: command_triples_def map_concat comp_def)
  also have "\<dots> = concat (map (\<lambda>isub. commands (snd isub)) (enumerate 0 (this_commands self)))"
    by (simp add: map_snd_enumerate_fun [where f = "\<lambda>x. x"])
  also have "\<dots> = concat (map commands (this_commands self))"
    by (simp only: map_snd_enumerate_fun)
  finally show ?thesis by (simp add: flatten_def)
qed

lemma command_triples_mem:
  "t \<in> set (command_triples self start endp) \<longleftrightarrow>
     (\<exists>i<length (this_commands self). \<exists>j<length (commands (this_commands self ! i)).
        t = (commands (this_commands self ! i) ! j,
             commands (this_commands start ! i) ! j,
             commands (this_commands endp ! i) ! j))"
proof
  assume "t \<in> set (command_triples self start endp)"
  then obtain isub jd where "isub \<in> set (enumerate 0 (this_commands self))"
    and "jd \<in> set (enumerate 0 (commands (snd isub)))"
    and "t = (snd jd, commands (this_commands start ! fst isub) ! fst jd,
              commands (this_commands endp ! fst isub) ! fst jd)"
    by (auto simp: command_triples_def)
  then show "\<exists>i<length (this_commands self). \<exists>j<length (commands (this_commands self ! i)).
        t = (commands (this_commands self ! i) ! j,
             commands (this_commands start ! i) ! j,
             commands (this_commands endp ! i) ! j)"
    by (intro exI [of _ "fst isub"] exI [of _ "fst jd"]) (auto simp: in_set_enumerate_eq)
next
  assume "\<exists>i<length (this_commands self). \<exists>j<length (commands (this_commands self ! i)).
        t = (commands (this_commands self ! i) ! j,
             commands (this_commands start ! i) ! j,
             commands (this_commands endp ! i) ! j)"
  then obtain i j where i: "i < length (this_commands self)"
    and j: "j < length (commands (this_commands self ! i))"
    and t: "t = (commands (this_commands self ! i) ! j,
             commands (this_commands start ! i) ! j,
             commands (this_commands endp ! i) ! j)"
    by blast
  have imem: "(i, this_commands self ! i) \<in> set (enumerate 0 (this_commands self))"
    using i by (simp add: in_set_enumerate_eq)
  have jmem: "(j, commands (this_commands self ! i) ! j)
      \<in> set (enumerate 0 (commands (snd (i, this_commands self ! i))))"
    using j by (simp add: in_set_enumerate_eq)
  have "t \<in> (\<lambda>jd. (snd jd, commands (this_commands start ! fst (i, this_commands self ! i)) ! fst jd,
                    commands (this_commands endp ! fst (i, this_commands self ! i)) ! fst jd))
              ` set (enumerate 0 (commands (snd (i, this_commands self ! i))))"
    by (rule image_eqI [OF _ jmem]) (simp add: t)
  then show "t \<in> set (command_triples self start endp)"
    unfolding command_triples_def set_concat set_map
    by (intro UN_I [OF imageI [OF imem]]) simp
qed

lemma arg_nth_arg_upd:
  "i < 9 \<Longrightarrow> k < 9 \<Longrightarrow> arg_nth (arg_upd a i v) k = (if k = i then v else arg_nth a k)"
  by (cases a) (auto; arith)

lemma arg_nth_fold:
  "n \<le> 9 \<Longrightarrow> k < 9 \<Longrightarrow>
     arg_nth (fold (interpolated_args K fraction a1 a2) [0..<n] a) k =
       (if k < n then
          (if k = 5 \<or> k = 6 then (if fraction = 0 then arg_nth a1 k else arg_nth a2 k)
           else lerp K (arg_nth a1 k) (arg_nth a2 k) fraction)
        else arg_nth a k)"
proof (induction n)
  case 0
  then show ?case by simp
next
  case (Suc n)
  then have n: "n < 9" by simp
  from Suc show ?case
    by (simp add: interpolated_args_def arg_nth_arg_upd [OF n] less_Suc_eq)
qed

lemma args_interpolated:
  assumes "args_of c = Some a" "args_of c1 = Some a1" "args_of c2 = Some a2" "k < 9"
  shows "arg_nth (args (interpolated K fraction c c1 c2)) k =
       (if k = 5 \<or> k = 6 then (if fraction = 0 then arg_nth a1 k else arg_nth a2 k)
        else lerp K (arg_nth a1 k) (arg_nth a2 k) fraction)"
proof -
  obtain ps where c: "c = EllipticalArcCommand ps a"
    using assms(1) by (cases c) simp_all
  show ?thesis
    using assms arg_nth_fold [of args_length k K fraction a1 a2 a]
    by (simp add: interpolated_def c args_length_def)
qed

lemma args_of_args: "constructor_of c = EllipticalArc \<Longrightarrow> args_of c = Some (args c)"
  by (cases c) simp_all

text \<open>
  C5: interpolate(start, end, fraction) on a path that is morphable with both, whose
  commands are distinct objects and are not commands of the start or the end path. For
  an EllipticalArc command of the path and every index below 9, the arg at the index
  is afterwards: at the indices 5 and 6 the arg of the start command when the fraction
  is 0 and the arg of the end command otherwise; at every other index the lerp of the
  args of the start and of the end command.
\<close>

theorem interpolate_arc_args:
  assumes ms: "isMorphableWith (objs st) self start" and me: "isMorphableWith (objs st) self endp"
    and dist: "distinct (flatten (this_commands self))"
    and ds: "set (flatten (this_commands start)) \<inter> set (flatten (this_commands self)) = {}"
    and de: "set (flatten (this_commands endp)) \<inter> set (flatten (this_commands self)) = {}"
    and i: "i < length (this_commands self)"
    and j: "j < length (commands (this_commands self ! i))"
    and arc: "constructor_of (objs st (commands (this_commands self ! i) ! j)) = EllipticalArc"
    and k: "k < 9"
  shows "\<exists>st' self'. interpolate K st self start endp fraction = Inr (st', self')
           \<and> constructor_of (objs st' (commands (this_commands self ! i) ! j)) = EllipticalArc
           \<and> arg_nth (args (objs st' (commands (this_commands self ! i) ! j))) k =
               (if k = 5 \<or> k = 6 then
                  (if fraction = 0
                   then arg_nth (args (objs st (commands (this_commands start ! i) ! j))) k
                   else arg_nth (args (objs st (commands (this_commands endp ! i) ! j))) k)
                else lerp K (arg_nth (args (objs st (commands (this_commands start ! i) ! j))) k)
                            (arg_nth (args (objs st (commands (this_commands endp ! i) ! j))) k)
                            fraction)"
proof -
  let ?h = "objs st"
  let ?T = "command_triples self start endp"
  let ?d = "commands (this_commands self ! i) ! j"
  let ?d1 = "commands (this_commands start ! i) ! j"
  let ?d2 = "commands (this_commands endp ! i) ! j"
  have fst_T: "fst ` set ?T = set (flatten (this_commands self))"
    using map_fst_command_triples [of self start endp] by (metis set_map)
  have distT: "distinct (map fst ?T)"
    using dist by (simp add: map_fst_command_triples)
  have condT: "\<forall>t\<in>set ?T. fst (snd t) \<notin> fst ` set ?T \<and> snd (snd t) \<notin> fst ` set ?T
           \<and> constructor_of (?h (fst (snd t))) = constructor_of (?h (fst t))
           \<and> constructor_of (?h (snd (snd t))) = constructor_of (?h (fst t))"
  proof
    fix t assume "t \<in> set ?T"
    then obtain i' j' where i': "i' < length (this_commands self)"
      and j': "j' < length (commands (this_commands self ! i'))"
      and t: "t = (commands (this_commands self ! i') ! j',
                   commands (this_commands start ! i') ! j',
                   commands (this_commands endp ! i') ! j')"
      by (auto simp: command_triples_mem)
    from ms i' j' have s: "i' < length (this_commands start)"
      "j' < length (commands (this_commands start ! i'))"
      "constructor_of (?h (commands (this_commands start ! i') ! j'))
         = constructor_of (?h (commands (this_commands self ! i') ! j'))"
      by (simp_all add: isMorphableWith_iff)
    from me i' j' have e: "i' < length (this_commands endp)"
      "j' < length (commands (this_commands endp ! i'))"
      "constructor_of (?h (commands (this_commands endp ! i') ! j'))
         = constructor_of (?h (commands (this_commands self ! i') ! j'))"
      by (simp_all add: isMorphableWith_iff)
    from nth_in_flatten [OF s(1) s(2)] ds
    have "commands (this_commands start ! i') ! j' \<notin> set (flatten (this_commands self))" by blast
    moreover from nth_in_flatten [OF e(1) e(2)] de
    have "commands (this_commands endp ! i') ! j' \<notin> set (flatten (this_commands self))" by blast
    ultimately show "fst (snd t) \<notin> fst ` set ?T \<and> snd (snd t) \<notin> fst ` set ?T
           \<and> constructor_of (?h (fst (snd t))) = constructor_of (?h (fst t))
           \<and> constructor_of (?h (snd (snd t))) = constructor_of (?h (fst t))"
      using s(3) e(3) by (simp add: t fst_T)
  qed
  from flat_traversal [OF distT condT, of K fraction] obtain h' where
    run: "forEach (\<lambda>t. interpolate_command K fraction (fst t) (fst (snd t)) (snd (snd t))) ?T ?h = Inr h'"
    and vals: "\<forall>t\<in>set ?T. h' (fst t) = interpolated K fraction (?h (fst t)) (?h (fst (snd t))) (?h (snd (snd t)))"
    by blast
  have res: "interpolate K st self start endp fraction =
      Inr (st\<lparr>objs := h'\<rparr>, rebuildInternalState K h' False self)"
    using ms me run by (simp add: interpolate_def interpolate_loops_flat)
  have "(?d, ?d1, ?d2) \<in> set ?T"
    using i j by (auto simp: command_triples_mem)
  with vals have val: "h' ?d = interpolated K fraction (?h ?d) (?h ?d1) (?h ?d2)"
    by fastforce
  from ms me i j arc have arcs: "constructor_of (?h ?d1) = EllipticalArc"
    "constructor_of (?h ?d2) = EllipticalArc"
    by (simp_all add: isMorphableWith_iff)
  have kind: "constructor_of (h' ?d) = EllipticalArc"
    using arc by (simp add: val interpolated_shape)
  have "arg_nth (args (h' ?d)) k =
      (if k = 5 \<or> k = 6 then
         (if fraction = 0 then arg_nth (args (?h ?d1)) k else arg_nth (args (?h ?d2)) k)
       else lerp K (arg_nth (args (?h ?d1)) k) (arg_nth (args (?h ?d2)) k) fraction)"
    unfolding val
    by (rule args_interpolated [OF args_of_args [OF arc] args_of_args [OF arcs(1)]
          args_of_args [OF arcs(2)] k])
  with res kind show ?thesis by simp
qed


lemma morph_self_distinct: "distinct (flatten (this_commands morph_self))"
  by (simp add: morph_defs flatten_def)

lemma morph_start_disjoint:
  "set (flatten (this_commands morph_start)) \<inter> set (flatten (this_commands morph_self)) = {}"
  by (simp add: morph_defs flatten_def)

lemma morph_end_disjoint:
  "set (flatten (this_commands morph_end)) \<inter> set (flatten (this_commands morph_self)) = {}"
  by (simp add: morph_defs flatten_def)

theorem interpolate_arc_args_witness:
  "isMorphableWith (objs morph_store) morph_self morph_start
   \<and> isMorphableWith (objs morph_store) morph_self morph_end
   \<and> distinct (flatten (this_commands morph_self))
   \<and> set (flatten (this_commands morph_start)) \<inter> set (flatten (this_commands morph_self)) = {}
   \<and> set (flatten (this_commands morph_end)) \<inter> set (flatten (this_commands morph_self)) = {}
   \<and> commands (this_commands morph_self ! 0) ! 1 = 1
   \<and> constructor_of (objs morph_store 1) = EllipticalArc
   \<and> (\<exists>st' self'. interpolate (line_kernel []) morph_store morph_self morph_start morph_end (1 / 2)
                      = Inr (st', self')
          \<and> arg_nth (args (objs st' 1)) 2 = 3)
   \<and> (\<exists>st' self'. interpolate (line_kernel []) morph_store morph_self morph_start morph_end (1 / 2)
                      = Inr (st', self')
          \<and> arg_nth (args (objs st' 1)) 5 = 0)
   \<and> (\<exists>st' self'. interpolate (line_kernel []) morph_store morph_self morph_start morph_end 0
                      = Inr (st', self')
          \<and> arg_nth (args (objs st' 1)) 5 = 1)"
proof -
  have i: "0 < length (this_commands morph_self)"
    and j: "1 < length (commands (this_commands morph_self ! 0))"
    and d: "commands (this_commands morph_self ! 0) ! 1 = 1"
    and d1: "commands (this_commands morph_start ! 0) ! 1 = 4"
    and d2: "commands (this_commands morph_end ! 0) ! 1 = 7"
    and arc: "constructor_of (objs morph_store (commands (this_commands morph_self ! 0) ! 1)) = EllipticalArc"
    and a1: "args (objs morph_store 4) = ArcArgs 0 0 2 2 0 1 0 4 0"
    and a2: "args (objs morph_store 7) = ArcArgs 10 10 4 6 90 0 1 8 0"
    by (simp_all add: morph_defs)
  have k2: "(2::nat) < 9" and k5: "(5::nat) < 9" by simp_all
  have lk: "lerp (line_kernel []) a b f = a + (b - a) * f" for a b f
    by (simp add: line_kernel_def)
  note inst = interpolate_arc_args [OF morph_self_start morph_self_end morph_self_distinct
      morph_start_disjoint morph_end_disjoint i j arc, of _ "line_kernel []"]
  from inst [OF k2, of "1 / 2", unfolded d d1 d2 a1 a2]
  have r1: "\<exists>st' self'. interpolate (line_kernel []) morph_store morph_self morph_start morph_end (1 / 2)
                      = Inr (st', self') \<and> arg_nth (args (objs st' 1)) 2 = 3"
    by (auto simp: lk)
  from inst [OF k5, of "1 / 2", unfolded d d1 d2 a1 a2]
  have r2: "\<exists>st' self'. interpolate (line_kernel []) morph_store morph_self morph_start morph_end (1 / 2)
                      = Inr (st', self') \<and> arg_nth (args (objs st' 1)) 5 = 0"
    by auto
  from inst [OF k5, of 0, unfolded d d1 d2 a1 a2]
  have r3: "\<exists>st' self'. interpolate (line_kernel []) morph_store morph_self morph_start morph_end 0
                      = Inr (st', self') \<and> arg_nth (args (objs st' 1)) 5 = 1"
    by auto
  from arc d have "constructor_of (objs morph_store 1) = EllipticalArc" by simp
  with morph_self_start morph_self_end morph_self_distinct morph_start_disjoint morph_end_disjoint
    d r1 r2 r3
  show ?thesis by blast
qed


end
